theory Spec2Isabelle
  imports Main "HOL-Library.Word"
begin

section \<open>net/base/net\_errors.cpp\<close>

text \<open>
  \<^verbatim>\<open>net_error_list.h\<close> is a list of \<^verbatim>\<open>NET_ERROR(label, value)\<close> lines. The file is
  included twice in net\_errors.cpp and is a parameter here: one pair per line, in the
  order of the file. The enumerator \<^verbatim>\<open>ERR_label\<close> has the value of its line.
\<close>

type_synonym net_error_list = "(string \<times> int) list"

text \<open>The \<^verbatim>\<open>case ERR_label: return "net::" "ERR_label";\<close> lines of the switch.\<close>

fun switch_cases :: "net_error_list \<Rightarrow> int \<Rightarrow> string option" where
  "switch_cases [] error = None"
| "switch_cases ((label, v) # rest) error =
     (if error = v then Some (''net::ERR_'' @ label) else switch_cases rest error)"

definition ErrorToString :: "net_error_list \<Rightarrow> int \<Rightarrow> string" where
  "ErrorToString tbl error =
     (if error = 0 then ''net::OK''
      else case switch_cases tbl error of
             Some s \<Rightarrow> s
           | None \<Rightarrow> ''net::<unknown>'')"

section \<open>base/prefs/value\_map\_pref\_store.cc\<close>

text \<open>A \<^verbatim>\<open>base::Value\<close>, compared by \<^verbatim>\<open>Equals\<close>.\<close>

datatype Value = BooleanValue bool | IntegerValue int | StringValue string

type_synonym PrefValueMap = "string \<rightharpoonup> Value"

text \<open>
  Modelled from the spec: \<^verbatim>\<open>PrefValueMap::SetValue\<close> and \<^verbatim>\<open>PrefValueMap::RemoveValue\<close>
  (base/prefs/pref\_value\_map.cc is not among the sources). The spec says of the store that
  setting a value "returns whether it changed": the map stores the value under the key and
  answers whether the stored value is now another one.
\<close>

definition PrefValueMap_SetValue :: "PrefValueMap \<Rightarrow> string \<Rightarrow> Value \<Rightarrow> bool \<times> PrefValueMap" where
  "PrefValueMap_SetValue m key v =
     (if m key = Some v then (False, m) else (True, m(key \<mapsto> v)))"

definition PrefValueMap_RemoveValue :: "PrefValueMap \<Rightarrow> string \<Rightarrow> bool \<times> PrefValueMap" where
  "PrefValueMap_RemoveValue m key =
     (if m key = None then (False, m) else (True, m(key := None)))"

text \<open>
  The store: the map \<^verbatim>\<open>prefs_\<close>, the observer list \<^verbatim>\<open>observers_\<close> (a name cannot end in an
  underscore here; observers are named by numbers), and the calls
  made on observers so far, oldest first.
\<close>

datatype ObserverCall = OnPrefValueChanged nat string | OnInitializationCompleted nat bool

record ValueMapPrefStore =
  prefs :: PrefValueMap
  observers :: "nat list"
  calls :: "ObserverCall list"

text \<open>\<^verbatim>\<open>FOR_EACH_OBSERVER(Observer, observers_, OnPrefValueChanged(key))\<close>\<close>

definition notify_changed :: "ValueMapPrefStore \<Rightarrow> string \<Rightarrow> ValueMapPrefStore" where
  "notify_changed s key =
     s\<lparr>calls := calls s @ map (\<lambda>ob. OnPrefValueChanged ob key) (observers s)\<rparr>"

definition GetValue :: "ValueMapPrefStore \<Rightarrow> string \<Rightarrow> Value option" where
  "GetValue s key = prefs s key"

definition AddObserver :: "ValueMapPrefStore \<Rightarrow> nat \<Rightarrow> ValueMapPrefStore" where
  "AddObserver s ob = s\<lparr>observers := observers s @ [ob]\<rparr>"

text \<open>The function is \<^verbatim>\<open>void\<close>: its result is the unit value and the new store.\<close>

definition SetValue :: "ValueMapPrefStore \<Rightarrow> string \<Rightarrow> Value \<Rightarrow> 32 word \<Rightarrow> unit \<times> ValueMapPrefStore" where
  "SetValue s key v flags =
     (case PrefValueMap_SetValue (prefs s) key v of
        (changed, m) \<Rightarrow>
          (if changed then ((), notify_changed (s\<lparr>prefs := m\<rparr>) key)
           else ((), s\<lparr>prefs := m\<rparr>)))"

definition RemoveValue :: "ValueMapPrefStore \<Rightarrow> string \<Rightarrow> 32 word \<Rightarrow> unit \<times> ValueMapPrefStore" where
  "RemoveValue s key flags =
     (case PrefValueMap_RemoveValue (prefs s) key of
        (changed, m) \<Rightarrow>
          (if changed then ((), notify_changed (s\<lparr>prefs := m\<rparr>) key)
           else ((), s\<lparr>prefs := m\<rparr>)))"

definition SetValueSilently :: "ValueMapPrefStore \<Rightarrow> string \<Rightarrow> Value \<Rightarrow> 32 word \<Rightarrow> unit \<times> ValueMapPrefStore" where
  "SetValueSilently s key v flags = ((), s\<lparr>prefs := snd (PrefValueMap_SetValue (prefs s) key v)\<rparr>)"

text \<open>Two stores with one observer: an empty one, and one that holds 1 under \<open>a\<close>.\<close>

definition store_empty :: ValueMapPrefStore where
  "store_empty = \<lparr>prefs = Map.empty, observers = [7], calls = []\<rparr>"

definition store_a1 :: ValueMapPrefStore where
  "store_a1 = \<lparr>prefs = [''a'' \<mapsto> IntegerValue 1], observers = [7], calls = []\<rparr>"

section \<open>base/threading/thread.cc: the data\<close>

text \<open>
  Member names of the source end in an underscore, which a name cannot do here: the
  underscore is dropped (\<^verbatim>\<open>stopping_\<close> is \<open>stopping\<close>), and \<^verbatim>\<open>id_\<close> is \<open>id_m\<close>.
\<close>

datatype MessageLoop_Type = TYPE_DEFAULT | TYPE_UI | TYPE_CUSTOM | TYPE_IO

datatype TimerSlack = TIMER_SLACK_NONE | TIMER_SLACK_MAXIMUM

datatype ThreadPriority = BACKGROUND | NORMAL | DISPLAY | REALTIME_AUDIO

datatype ComStatus = NONE | STA | MTA

text \<open>\<^verbatim>\<open>Thread::Options\<close>; a null \<^verbatim>\<open>message_pump_factory\<close> callback is \<open>None\<close>.\<close>

record Options =
  message_loop_type :: MessageLoop_Type
  message_pump_factory :: "nat option"
  timer_slack :: TimerSlack
  stack_size :: nat
  priority :: ThreadPriority

text \<open>\<^verbatim>\<open>Options::Options()\<close> and \<^verbatim>\<open>Options::Options(type, size)\<close>\<close>

definition Options_default :: Options where
  "Options_default = \<lparr>message_loop_type = TYPE_DEFAULT, message_pump_factory = None,
     timer_slack = TIMER_SLACK_NONE, stack_size = 0, priority = NORMAL\<rparr>"

definition Options_of :: "MessageLoop_Type \<Rightarrow> nat \<Rightarrow> Options" where
  "Options_of ty sz = \<lparr>message_loop_type = ty, message_pump_factory = None,
     timer_slack = TIMER_SLACK_NONE, stack_size = sz, priority = NORMAL\<rparr>"

text \<open>
  Modelled from the spec: the Event of section 2 (\<^verbatim>\<open>WaitableEvent\<close>, whose source is not
  here), "a binary synchronization primitive with signal, wait, and reset, supporting both
  auto-reset and manual-reset modes". The constructor takes \<^verbatim>\<open>(manual_reset,
  initially_signaled)\<close>. A wait returns once the event is signaled, and an auto-reset event
  is reset by the wait that returns.
\<close>

record WaitableEvent =
  manual_reset :: bool
  signaled :: bool

definition WaitableEvent_new :: "bool \<Rightarrow> bool \<Rightarrow> WaitableEvent" where
  "WaitableEvent_new manual initially = \<lparr>manual_reset = manual, signaled = initially\<rparr>"

definition Reset :: "WaitableEvent \<Rightarrow> WaitableEvent" where
  "Reset e = e\<lparr>signaled := False\<rparr>"

definition Signal :: "WaitableEvent \<Rightarrow> WaitableEvent" where
  "Signal e = e\<lparr>signaled := True\<rparr>"

definition after_Wait :: "WaitableEvent \<Rightarrow> WaitableEvent" where
  "after_Wait e = (if manual_reset e then e else e\<lparr>signaled := False\<rparr>)"

text \<open>
  Modelled from the spec: the TaskLoop of sections 2 and 6 (\<^verbatim>\<open>MessageLoop\<close>, whose source is
  not here): created unbound, bound to one thread, given a thread name and a timer
  granularity, it runs posted tasks "until a quit task executes or the loop is otherwise
  told to stop". A task is the quit task of this file (\<^verbatim>\<open>ThreadQuitHelper\<close>), a direct
  call of \<^verbatim>\<open>MessageLoop::QuitWhenIdle\<close> that bypasses it, or any other work.
\<close>

datatype Task = ThreadQuitHelper | DirectQuitWhenIdle | OtherTask nat

record MessageLoop =
  loop_type :: MessageLoop_Type
  loop_pump_factory :: "nat option"
  bound_to :: "nat option"
  loop_thread_name :: string
  loop_timer_slack :: TimerSlack
  incoming :: "Task list"
  quit_when_idle_received :: bool

definition CreateUnbound :: "MessageLoop_Type \<Rightarrow> nat option \<Rightarrow> MessageLoop" where
  "CreateUnbound ty factory = \<lparr>loop_type = ty, loop_pump_factory = factory, bound_to = None,
     loop_thread_name = [], loop_timer_slack = TIMER_SLACK_NONE, incoming = [],
     quit_when_idle_received = False\<rparr>"

text \<open>
  The members of \<^verbatim>\<open>Thread\<close>. The native handle \<open>thread\<close> is a number, 0 the null handle;
  \<^verbatim>\<open>kInvalidThreadId\<close> is 0; \<open>message_loop\<close> is the raw pointer, \<open>None\<close> for
  \<^verbatim>\<open>nullptr\<close>, otherwise the address of the loop in the heap.
\<close>

definition kInvalidThreadId :: nat where
  "kInvalidThreadId = 0"

record Thread =
  com_status :: ComStatus
  stopping :: bool
  running :: bool
  thread :: nat
  id_m :: nat
  id_event :: WaitableEvent
  message_loop :: "nat option"
  message_loop_timer_slack :: TimerSlack
  name :: string
  start_event :: WaitableEvent

text \<open>\<^verbatim>\<open>Thread::Thread(name)\<close>, lines 58 to 72.\<close>

definition Thread_new :: "string \<Rightarrow> Thread" where
  "Thread_new nm = \<lparr>com_status = NONE, stopping = False, running = False, thread = 0,
     id_m = kInvalidThreadId, id_event = WaitableEvent_new True False, message_loop = None,
     message_loop_timer_slack = TIMER_SLACK_NONE, name = nm,
     start_event = WaitableEvent_new False False\<rparr>"

text \<open>
  The build: whether \<^verbatim>\<open>DCHECK\<close>s are compiled in (\<^verbatim>\<open>DCHECK_IS_ON()\<close>, from
  base/logging.h, which is not among the sources), whether \<^verbatim>\<open>NDEBUG\<close> is defined, and
  whether \<^verbatim>\<open>OS_WIN\<close> is.
\<close>

record Build =
  dcheck_is_on :: bool
  ndebug :: bool
  os_win :: bool

text \<open>
  What a call comes to: it returns, or the process dies (a failed \<^verbatim>\<open>DCHECK\<close>, a null
  dereference), or the caller waits for ever, or a \<^verbatim>\<open>DCHECK\<close> that is compiled out
  would have failed and the code goes on into a state with two workers on one controller,
  which this model does not describe.
\<close>

datatype Fatal_Reason =
    DCHECK_message_loop_is_null
  | DCHECK_com_status
  | DCHECK_message_loop_not_null
  | DCHECK_id_is_valid
  | DCHECK_not_on_worker
  | DCHECK_quit_properly
  | Null_dereference

datatype 'a Outcome = Returns 'a | Dies Fatal_Reason | Waits_forever | Not_modelled

definition and_then :: "'a Outcome \<Rightarrow> ('a \<Rightarrow> 'b Outcome) \<Rightarrow> 'b Outcome" where
  "and_then m f = (case m of Returns x \<Rightarrow> f x | Dies r \<Rightarrow> Dies r
                   | Waits_forever \<Rightarrow> Waits_forever | Not_modelled \<Rightarrow> Not_modelled)"

text \<open>
  What the two threads do that another thread, or the operating system, can see; the
  world keeps them in order.
\<close>

datatype Lock_Name = thread_lock | running_lock

datatype Action =
    Set_id nat
  | Signal_id_event
  | PlatformThread_SetName string
  | BindToCurrentThread nat nat
  | set_thread_name string
  | SetTimerSlack TimerSlack
  | ScopedCOMInitializer ComStatus
  | Init
  | Acquire Lock_Name
  | Release Lock_Name
  | Set_running bool
  | Read_running bool
  | Signal_start_event
  | Run nat
  | CleanUp
  | COM_uninitialize
  | DCHECK_GetThreadWasQuitProperly bool
  | Set_message_loop_null
  | Destroy_loop nat
  | CreateWithPriority nat ThreadPriority bool
  | PostTask Task
  | Join nat

text \<open>
  Where the worker stands: not created (or joined), created and not yet in
  \<^verbatim>\<open>ThreadMain\<close>, inside \<^verbatim>\<open>Run\<close> at line 255, or returned from \<^verbatim>\<open>ThreadMain\<close>.
\<close>

datatype Worker_At = No_worker | Created | In_Run | Returned

record Worker =
  at :: Worker_At
  worker_id :: nat
  owned_loop :: "nat option"

text \<open>
  The world of one controller: the controller object, the heap of message loops, the next
  free address, the thread-local boolean \<^verbatim>\<open>lazy_tls_bool\<close> of every thread (false until
  set), the worker, and the actions so far.
\<close>

record World =
  thr :: Thread
  heap :: "nat \<rightharpoonup> MessageLoop"
  next_free :: nat
  tls_bool :: "nat \<Rightarrow> bool"
  worker :: Worker
  actions :: "Action list"

definition World_new :: "string \<Rightarrow> World" where
  "World_new nm = \<lparr>thr = Thread_new nm, heap = Map.empty, next_free = 1,
     tls_bool = (\<lambda>t. False),
     worker = \<lparr>at = No_worker, worker_id = 0, owned_loop = None\<rparr>, actions = []\<rparr>"

definition did :: "Action list \<Rightarrow> World \<Rightarrow> World" where
  "did as w = w\<lparr>actions := actions w @ as\<rparr>"

text \<open>
  Modelled from the spec: the macro \<^verbatim>\<open>DCHECK\<close> of base/logging.h, which is not among the
  sources. Section 7 has the assertions "terminate the process in debug builds" and be
  "tolerated in release builds": where \<^verbatim>\<open>DCHECK\<close>s are compiled in, a false condition kills
  the process; elsewhere the condition is not evaluated and the code goes on.
\<close>

definition DCHECK :: "Build \<Rightarrow> bool \<Rightarrow> Fatal_Reason \<Rightarrow> World \<Rightarrow> World Outcome" where
  "DCHECK b cond r w = (if dcheck_is_on b \<and> \<not> cond then Dies r else Returns w)"


section \<open>base/threading/thread.cc: the worker thread\<close>

text \<open>\<^verbatim>\<open>Thread::SetThreadWasQuitProperly\<close> and \<^verbatim>\<open>Thread::GetThreadWasQuitProperly\<close>, called on thread \<open>t\<close>.\<close>

definition SetThreadWasQuitProperly :: "nat \<Rightarrow> bool \<Rightarrow> World \<Rightarrow> World" where
  "SetThreadWasQuitProperly t flag w = w\<lparr>tls_bool := (tls_bool w)(t := flag)\<rparr>"

definition GetThreadWasQuitProperly :: "Build \<Rightarrow> nat \<Rightarrow> World \<Rightarrow> bool" where
  "GetThreadWasQuitProperly b t w = (if ndebug b then True else tls_bool w t)"

text \<open>
  A task run by the loop at address \<open>a\<close> on thread \<open>t\<close>. \<^verbatim>\<open>ThreadQuitHelper\<close> (lines 35 to
  38) asks the current loop to quit when idle and sets the thread-local boolean.
\<close>

definition QuitWhenIdle :: "nat \<Rightarrow> World \<Rightarrow> World" where
  "QuitWhenIdle a w =
     (case heap w a of None \<Rightarrow> w
      | Some l \<Rightarrow> w\<lparr>heap := (heap w)(a \<mapsto> l\<lparr>quit_when_idle_received := True\<rparr>)\<rparr>)"

fun run_task :: "nat \<Rightarrow> nat \<Rightarrow> Task \<Rightarrow> World \<Rightarrow> World" where
  "run_task a t ThreadQuitHelper w = SetThreadWasQuitProperly t True (QuitWhenIdle a w)"
| "run_task a t DirectQuitWhenIdle w = QuitWhenIdle a w"
| "run_task a t (OtherTask n) w = w"

fun run_tasks :: "nat \<Rightarrow> nat \<Rightarrow> Task list \<Rightarrow> World \<Rightarrow> World" where
  "run_tasks a t [] w = w"
| "run_tasks a t (x # xs) w = run_tasks a t xs (run_task a t x w)"

text \<open>
  \<^verbatim>\<open>MessageLoop::Run\<close>, one turn: the loop runs the tasks that were posted, in order. With
  nothing posted and no request to quit, the loop sleeps and the worker makes no progress.
\<close>

definition take_incoming :: "nat \<Rightarrow> World \<Rightarrow> World" where
  "take_incoming a w =
     (case heap w a of None \<Rightarrow> w | Some l \<Rightarrow> w\<lparr>heap := (heap w)(a \<mapsto> l\<lparr>incoming := []\<rparr>)\<rparr>)"

definition MessageLoop_Run :: "nat \<Rightarrow> nat \<Rightarrow> World \<Rightarrow> World Outcome" where
  "MessageLoop_Run a t w =
     (case heap w a of
        None \<Rightarrow> Dies Null_dereference
      | Some l \<Rightarrow>
          if incoming l = [] \<and> \<not> quit_when_idle_received l then Waits_forever
          else Returns (run_tasks a t (incoming l) (take_incoming a w)))"

definition Run_is_over :: "nat \<Rightarrow> World \<Rightarrow> bool" where
  "Run_is_over a w = (case heap w a of None \<Rightarrow> True | Some l \<Rightarrow> quit_when_idle_received l)"

text \<open>
  \<^verbatim>\<open>Thread::ThreadMain\<close>, lines 218 to 279, in two parts: up to the call of \<^verbatim>\<open>Run\<close> at line
  255, where the worker stays as long as the loop runs, and from the return of \<^verbatim>\<open>Run\<close> on.
  \<^verbatim>\<open>Init\<close> and \<^verbatim>\<open>CleanUp\<close> are virtual with empty bodies in \<^verbatim>\<open>Thread\<close>; the members are
  private, so an override cannot write them.
\<close>

definition ThreadMain_begin :: "Build \<Rightarrow> World \<Rightarrow> World Outcome" where
  "ThreadMain_begin b w0 =
    (let t = worker_id (worker w0);
         w1 = did [Set_id t] (w0\<lparr>thr := (thr w0)\<lparr>id_m := t\<rparr>\<rparr>)
     in and_then (DCHECK b (kInvalidThreadId \<noteq> id_m (thr w1)) DCHECK_id_is_valid w1) (\<lambda>w1.
     let w2 = did [Signal_id_event, PlatformThread_SetName (name (thr w1))]
                (w1\<lparr>thr := (thr w1)\<lparr>id_event := Signal (id_event (thr w1))\<rparr>\<rparr>)
     in and_then (DCHECK b (message_loop (thr w2) \<noteq> None) DCHECK_message_loop_not_null w2) (\<lambda>w2.
     case message_loop (thr w2) of
       None \<Rightarrow> Dies Null_dereference
     | Some a \<Rightarrow>
        (case heap w2 a of
           None \<Rightarrow> Dies Null_dereference
         | Some l \<Rightarrow>
            let l' = l\<lparr>bound_to := Some t, loop_thread_name := name (thr w2),
                         loop_timer_slack := message_loop_timer_slack (thr w2)\<rparr>;
                w3 = did [BindToCurrentThread a t, set_thread_name (name (thr w2)),
                          SetTimerSlack (message_loop_timer_slack (thr w2))]
                       (w2\<lparr>heap := (heap w2)(a \<mapsto> l'),
                           worker := (worker w2)\<lparr>owned_loop := Some a\<rparr>\<rparr>);
                w4 = (if os_win b \<and> com_status (thr w3) \<noteq> NONE
                      then did [ScopedCOMInitializer (com_status (thr w3))] w3 else w3);
                w5 = did [Init] w4;
                w6 = did [Acquire running_lock, Set_running True, Release running_lock]
                       (w5\<lparr>thr := (thr w5)\<lparr>running := True\<rparr>\<rparr>);
                w7 = did [Signal_start_event]
                       (w6\<lparr>thr := (thr w6)\<lparr>start_event := Signal (start_event (thr w6))\<rparr>\<rparr>)
            in Returns (did [Run a] (w7\<lparr>worker := (worker w7)\<lparr>at := In_Run\<rparr>\<rparr>))))))"

definition ThreadMain_end :: "Build \<Rightarrow> World \<Rightarrow> World Outcome" where
  "ThreadMain_end b w0 =
    (case owned_loop (worker w0) of
       None \<Rightarrow> Dies Null_dereference
     | Some a \<Rightarrow>
        (case heap w0 a of
           None \<Rightarrow> Dies Null_dereference
         | Some l \<Rightarrow>
            let t = worker_id (worker w0);
                w1 = did [Acquire running_lock, Set_running False, Release running_lock]
                       (w0\<lparr>thr := (thr w0)\<lparr>running := False\<rparr>\<rparr>);
                w2 = did [CleanUp] w1;
                w3 = (if os_win b \<and> com_status (thr w2) \<noteq> NONE
                      then did [COM_uninitialize] w2 else w2)
            in and_then
                 (if loop_type l \<noteq> TYPE_CUSTOM
                  then (if dcheck_is_on b
                        then DCHECK b (GetThreadWasQuitProperly b t w3) DCHECK_quit_properly
                               (did [DCHECK_GetThreadWasQuitProperly (GetThreadWasQuitProperly b t w3)] w3)
                        else Returns w3)
                  else Returns w3) (\<lambda>w4.
               Returns (did [Set_message_loop_null, Destroy_loop a]
                 (w4\<lparr>thr := (thr w4)\<lparr>message_loop := None\<rparr>,
                     heap := (heap w4)(a := None),
                     worker := (worker w4)\<lparr>at := Returned, owned_loop := None\<rparr>\<rparr>)))))"

text \<open>
  One stretch of the worker: from its creation into \<^verbatim>\<open>Run\<close>; inside \<^verbatim>\<open>Run\<close>, one turn of
  the loop, and on to the end of \<^verbatim>\<open>ThreadMain\<close> when the loop was asked to quit. A worker
  that does not exist, or has returned, makes no progress.
\<close>

definition worker_step :: "Build \<Rightarrow> World \<Rightarrow> World Outcome" where
  "worker_step b w =
     (case at (worker w) of
        Created \<Rightarrow> ThreadMain_begin b w
      | In_Run \<Rightarrow>
         (case owned_loop (worker w) of
            None \<Rightarrow> Dies Null_dereference
          | Some a \<Rightarrow>
              and_then (MessageLoop_Run a (worker_id (worker w)) w) (\<lambda>w1.
                if Run_is_over a w1 then ThreadMain_end b w1 else Returns w1))
      | No_worker \<Rightarrow> Waits_forever
      | Returned \<Rightarrow> Waits_forever)"

text \<open>
  A thread that waits lets the worker go on until what it waits for holds. The worker has
  at most two stretches before it waits itself (lemma \<open>worker_step_thrice\<close>), so three
  are enough.
\<close>

fun await :: "nat \<Rightarrow> (World \<Rightarrow> bool) \<Rightarrow> Build \<Rightarrow> World \<Rightarrow> World Outcome" where
  "await 0 ready b w = (if ready w then Returns w else Waits_forever)"
| "await (Suc n) ready b w =
     (if ready w then Returns w else and_then (worker_step b w) (await n ready b))"

definition wait_until :: "(World \<Rightarrow> bool) \<Rightarrow> Build \<Rightarrow> World \<Rightarrow> World Outcome" where
  "wait_until ready b w = await 3 ready b w"


section \<open>base/threading/thread.cc: the controller\<close>

text \<open>
  A call is made on a thread \<open>cur\<close> (what \<^verbatim>\<open>PlatformThread::CurrentId()\<close> answers there).
  \<^verbatim>\<open>PlatformThread::CreateWithPriority\<close> is the operating system's: \<open>os\<close> is its answer,
  \<open>None\<close> when it creates no thread, otherwise the handle and the id of the new thread.
\<close>

definition StartWithOptions ::
  "Build \<Rightarrow> nat \<Rightarrow> (nat \<times> nat) option \<Rightarrow> Options \<Rightarrow> World \<Rightarrow> (bool \<times> World) Outcome" where
  "StartWithOptions b cur os options w0 =
    (if message_loop (thr w0) \<noteq> None
     then (if dcheck_is_on b then Dies DCHECK_message_loop_is_null else Not_modelled)
     else and_then
       (DCHECK b (\<not> os_win b \<or> com_status (thr w0) \<noteq> STA \<or> message_loop_type options = TYPE_UI)
          DCHECK_com_status w0) (\<lambda>w0.
       let w1 = w0\<lparr>thr := (thr w0)\<lparr>id_event := Reset (id_event (thr w0)),
                                      id_m := kInvalidThreadId\<rparr>\<rparr>;
           w2 = SetThreadWasQuitProperly cur False w1;
           ty = (if message_pump_factory options \<noteq> None then TYPE_CUSTOM
                 else message_loop_type options);
           a = next_free w2;
           w3 = w2\<lparr>thr := (thr w2)\<lparr>message_loop_timer_slack := timer_slack options,
                                      message_loop := Some a,
                                      start_event := Reset (start_event (thr w2))\<rparr>,
                   heap := (heap w2)(a \<mapsto> CreateUnbound ty (message_pump_factory options)),
                   next_free := Suc a\<rparr>;
           w4 = did [Acquire thread_lock] w3
       in case os of
            None \<Rightarrow>
              Returns (False,
                did [CreateWithPriority (stack_size options) (priority options) False,
                     Release thread_lock, Destroy_loop a]
                  (w4\<lparr>thr := (thr w4)\<lparr>message_loop := None\<rparr>,
                      heap := (heap w4)(a := None)\<rparr>))
          | Some (h, t) \<Rightarrow>
              let w5 = did [CreateWithPriority (stack_size options) (priority options) True,
                            Release thread_lock]
                         (w4\<lparr>thr := (thr w4)\<lparr>thread := h\<rparr>,
                             worker := \<lparr>at = Created, worker_id = t, owned_loop = None\<rparr>\<rparr>)
              in and_then
                   (DCHECK b (message_loop (thr w5) \<noteq> None) DCHECK_message_loop_not_null w5)
                   (\<lambda>w6. Returns (True, w6))))"

definition Start :: "Build \<Rightarrow> nat \<Rightarrow> (nat \<times> nat) option \<Rightarrow> World \<Rightarrow> (bool \<times> World) Outcome" where
  "Start b cur os w =
     StartWithOptions b cur os
       (if os_win b \<and> com_status (thr w) = STA
        then Options_default\<lparr>message_loop_type := TYPE_UI\<rparr> else Options_default) w"

definition WaitUntilThreadStarted :: "Build \<Rightarrow> World \<Rightarrow> (bool \<times> World) Outcome" where
  "WaitUntilThreadStarted b w =
     (if message_loop (thr w) = None then Returns (False, w)
      else and_then (wait_until (\<lambda>w. signaled (start_event (thr w))) b w) (\<lambda>w1.
             Returns (True, w1\<lparr>thr := (thr w1)\<lparr>start_event := after_Wait (start_event (thr w1))\<rparr>\<rparr>)))"

definition StartAndWaitForTesting ::
  "Build \<Rightarrow> nat \<Rightarrow> (nat \<times> nat) option \<Rightarrow> World \<Rightarrow> (bool \<times> World) Outcome" where
  "StartAndWaitForTesting b cur os w =
     and_then (Start b cur os w) (\<lambda>(result, w1).
       if \<not> result then Returns (False, w1)
       else and_then (WaitUntilThreadStarted b w1) (\<lambda>(ignored, w2). Returns (True, w2)))"

definition GetThreadId :: "Build \<Rightarrow> World \<Rightarrow> (nat \<times> World) Outcome" where
  "GetThreadId b w =
     and_then (wait_until (\<lambda>w. signaled (id_event (thr w))) b w) (\<lambda>w1.
       Returns (id_m (thr w1),
                w1\<lparr>thr := (thr w1)\<lparr>id_event := after_Wait (id_event (thr w1))\<rparr>\<rparr>))"

text \<open>\<^verbatim>\<open>message_loop()->PostTask(...)\<close> and \<^verbatim>\<open>task_runner()->PostTask(...)\<close>: the task joins the queue of the loop.\<close>

definition post_task :: "Task \<Rightarrow> World \<Rightarrow> World Outcome" where
  "post_task x w =
     (case message_loop (thr w) of
        None \<Rightarrow> Dies Null_dereference
      | Some a \<Rightarrow>
         (case heap w a of
            None \<Rightarrow> Dies Null_dereference
          | Some l \<Rightarrow> Returns (did [PostTask x] (w\<lparr>heap := (heap w)(a \<mapsto> l\<lparr>incoming := incoming l @ [x]\<rparr>)\<rparr>))))"


text \<open>
  \<^verbatim>\<open>DCHECK_NE(GetThreadId(), PlatformThread::CurrentId())\<close> evaluates its arguments only
  where \<^verbatim>\<open>DCHECK\<close>s are compiled in.
\<close>

definition StopSoon :: "Build \<Rightarrow> nat \<Rightarrow> World \<Rightarrow> World Outcome" where
  "StopSoon b cur w =
     and_then
       (if dcheck_is_on b
        then and_then (GetThreadId b w) (\<lambda>(i, w1). DCHECK b (i \<noteq> cur) DCHECK_not_on_worker w1)
        else Returns w) (\<lambda>w1.
       if stopping (thr w1) \<or> message_loop (thr w1) = None then Returns w1
       else post_task ThreadQuitHelper (w1\<lparr>thr := (thr w1)\<lparr>stopping := True\<rparr>\<rparr>))"

text \<open>\<^verbatim>\<open>PlatformThread::Join\<close> waits until the worker has returned from \<^verbatim>\<open>ThreadMain\<close>.\<close>

definition Stop :: "Build \<Rightarrow> nat \<Rightarrow> World \<Rightarrow> World Outcome" where
  "Stop b cur w0 =
     (let w1 = did [Acquire thread_lock] w0
      in if thread (thr w1) = 0 then Returns (did [Release thread_lock] w1)
         else and_then (StopSoon b cur w1) (\<lambda>w2.
              and_then (wait_until (\<lambda>w. at (worker w) = Returned) b
                          (did [Join (thread (thr w2))] w2)) (\<lambda>w3.
              let w4 = w3\<lparr>worker := (worker w3)\<lparr>at := No_worker\<rparr>,
                          thr := (thr w3)\<lparr>thread := 0\<rparr>\<rparr>
              in and_then (DCHECK b (message_loop (thr w4) = None) DCHECK_message_loop_is_null w4) (\<lambda>w5.
                 Returns (did [Release thread_lock] (w5\<lparr>thr := (thr w5)\<lparr>stopping := False\<rparr>\<rparr>))))))"

definition IsRunning :: "World \<Rightarrow> bool \<times> World" where
  "IsRunning w =
     (if message_loop (thr w) \<noteq> None \<and> \<not> stopping (thr w) then (True, w)
      else (running (thr w),
            did [Acquire running_lock, Read_running (running (thr w)), Release running_lock] w))"

definition IsStopping :: "World \<Rightarrow> bool" where
  "IsStopping w = stopping (thr w)"

section \<open>base/threading/thread.cc: the states of a controller\<close>

text \<open>
  The actions of ThreadMain that depend on the build: the COM initializer of lines 236 to
  243 and its reset at line 266, and the evaluation of the assertion at line 273.
\<close>

definition com_actions :: "Build \<Rightarrow> Thread \<Rightarrow> Action list" where
  "com_actions b t = (if os_win b \<and> com_status t \<noteq> NONE then [ScopedCOMInitializer (com_status t)] else [])"

definition com_end_actions :: "Build \<Rightarrow> Thread \<Rightarrow> Action list" where
  "com_end_actions b t = (if os_win b \<and> com_status t \<noteq> NONE then [COM_uninitialize] else [])"

definition quit_check_actions :: "Build \<Rightarrow> nat \<Rightarrow> MessageLoop \<Rightarrow> World \<Rightarrow> Action list" where
  "quit_check_actions b t l w = (if loop_type l \<noteq> TYPE_CUSTOM \<and> dcheck_is_on b
      then [DCHECK_GetThreadWasQuitProperly (GetThreadWasQuitProperly b t w)] else [])"

text \<open>The tasks that ask the loop to quit.\<close>

definition is_quit_task :: "Task \<Rightarrow> bool" where
  "is_quit_task x = (x = ThreadQuitHelper \<or> x = DirectQuitWhenIdle)"

text \<open>
  The states a controller can be in. With no worker there is no handle, no loop, and
  neither flag is set. A worker that is created and has not begun, or is inside \<^verbatim>\<open>Run\<close>,
  has a handle, a valid id and a live loop that the controller points to; \<open>running\<close> is
  true exactly inside \<^verbatim>\<open>Run\<close>. A worker that has returned has nulled the pointer. The
  lemmas below show that the worker's steps and every call of the controller keep a
  consistent state consistent, when the operating system hands out non-null handles and
  valid thread ids.
\<close>

definition consistent :: "World \<Rightarrow> bool" where
  "consistent w =
     (manual_reset (id_event (thr w)) \<and>
      (case at (worker w) of
         No_worker \<Rightarrow>
           thread (thr w) = 0 \<and> message_loop (thr w) = None \<and> \<not> stopping (thr w) \<and> \<not> running (thr w)
       | Created \<Rightarrow>
           thread (thr w) \<noteq> 0 \<and> \<not> running (thr w) \<and> worker_id (worker w) \<noteq> kInvalidThreadId \<and>
           (case message_loop (thr w) of None \<Rightarrow> False | Some a \<Rightarrow> heap w a \<noteq> None)
       | In_Run \<Rightarrow>
           thread (thr w) \<noteq> 0 \<and> running (thr w) \<and> worker_id (worker w) \<noteq> kInvalidThreadId \<and>
           owned_loop (worker w) = message_loop (thr w) \<and>
           (case message_loop (thr w) of None \<Rightarrow> False | Some a \<Rightarrow> heap w a \<noteq> None)
       | Returned \<Rightarrow>
           thread (thr w) \<noteq> 0 \<and> \<not> running (thr w) \<and> worker_id (worker w) \<noteq> kInvalidThreadId \<and>
           message_loop (thr w) = None))"

text \<open>
  The id of a worker that has begun is published: \<open>id_event\<close> is signaled and \<open>id_m\<close> is
  the worker's id. This holds from the worker's first step until the next call of
  \<^verbatim>\<open>StartWithOptions\<close>, which resets both.
\<close>

definition id_published :: "World \<Rightarrow> bool" where
  "id_published w =
     (case at (worker w) of
        No_worker \<Rightarrow> True
      | Created \<Rightarrow> True
      | In_Run \<Rightarrow> signaled (id_event (thr w)) \<and> id_m (thr w) = worker_id (worker w)
      | Returned \<Rightarrow> signaled (id_event (thr w)) \<and> id_m (thr w) = worker_id (worker w))"

text \<open>
  The specification of \<^verbatim>\<open>StartAndWaitForTesting\<close>, in its words: the "composition of Start
  followed by WaitUntilStarted; fails if either fails". Both are called, and the answer is
  the conjunction of their answers.
\<close>

definition Start_then_WaitUntilStarted ::
  "Build \<Rightarrow> nat \<Rightarrow> (nat \<times> nat) option \<Rightarrow> World \<Rightarrow> (bool \<times> World) Outcome" where
  "Start_then_WaitUntilStarted b cur os w =
     and_then (Start b cur os w) (\<lambda>(started, w1).
     and_then (WaitUntilThreadStarted b w1) (\<lambda>(waited, w2).
       Returns (started \<and> waited, w2)))"

section \<open>Builds and states to run the definitions on\<close>

text \<open>
  A debug build and a release build; the state after a first successful Start of a
  controller named \<open>worker-A\<close> (handle 5, worker id 9, called on thread 1), and the state
  after the Stop that follows in the debug build. \<open>returned\<close> reads the value a call
  returned, if it returned.
\<close>

definition debug_build :: Build where
  "debug_build = \<lparr>dcheck_is_on = True, ndebug = False, os_win = False\<rparr>"


definition started_world :: World where
  "started_world =
     \<lparr>thr = (Thread_new ''worker-A'')\<lparr>thread := 5, message_loop := Some 1\<rparr>,
      heap = [1 \<mapsto> CreateUnbound TYPE_DEFAULT None], next_free = 2,
      tls_bool = (\<lambda>t. False),
      worker = \<lparr>at = Created, worker_id = 9, owned_loop = None\<rparr>,
      actions = [Acquire thread_lock, CreateWithPriority 0 NORMAL True, Release thread_lock]\<rparr>"

definition stopped_world :: World where
  "stopped_world =
     \<lparr>thr = (Thread_new ''worker-A'')\<lparr>id_m := 9, id_event := \<lparr>manual_reset = True, signaled = True\<rparr>,
              start_event := \<lparr>manual_reset = False, signaled = True\<rparr>\<rparr>,
      heap = Map.empty, next_free = 2,
      tls_bool = (\<lambda>t. False)(9 := True),
      worker = \<lparr>at = No_worker, worker_id = 9, owned_loop = None\<rparr>,
      actions = [Acquire thread_lock, CreateWithPriority 0 NORMAL True, Release thread_lock,
        Acquire thread_lock, Set_id 9, Signal_id_event, PlatformThread_SetName ''worker-A'',
        BindToCurrentThread 1 9, set_thread_name ''worker-A'', SetTimerSlack TIMER_SLACK_NONE, Init,
        Acquire running_lock, Set_running True, Release running_lock, Signal_start_event, Run 1,
        PostTask ThreadQuitHelper, Join 5, Acquire running_lock, Set_running False,
        Release running_lock, CleanUp, DCHECK_GetThreadWasQuitProperly True,
        Set_message_loop_null, Destroy_loop 1, Release thread_lock]\<rparr>"

definition returned :: "('a \<times> World) Outcome \<Rightarrow> 'a option" where
  "returned x = (case x of Returns (r, w) \<Rightarrow> Some r | Dies r \<Rightarrow> None | Waits_forever \<Rightarrow> None
                 | Not_modelled \<Rightarrow> None)"

text \<open>The state after Start and WaitUntilThreadStarted: the worker is inside \<^verbatim>\<open>Run\<close>.\<close>

definition running_world :: World where
  "running_world =
     \<lparr>thr = (Thread_new ''worker-A'')\<lparr>running := True, thread := 5, id_m := 9,
              id_event := \<lparr>manual_reset = True, signaled = True\<rparr>, message_loop := Some 1\<rparr>,
      heap = [1 \<mapsto> (CreateUnbound TYPE_DEFAULT None)\<lparr>bound_to := Some 9, loop_thread_name := ''worker-A''\<rparr>],
      next_free = 2,
      tls_bool = (\<lambda>t. False),
      worker = \<lparr>at = In_Run, worker_id = 9, owned_loop = Some 1\<rparr>,
      actions = [Acquire thread_lock, CreateWithPriority 0 NORMAL True, Release thread_lock,
        Set_id 9, Signal_id_event, PlatformThread_SetName ''worker-A'',
        BindToCurrentThread 1 9, set_thread_name ''worker-A'', SetTimerSlack TIMER_SLACK_NONE, Init,
        Acquire running_lock, Set_running True, Release running_lock, Signal_start_event, Run 1]\<rparr>"

text \<open>The state after \<^verbatim>\<open>StopSoon\<close> on the running worker: the quit task is in the queue.\<close>

definition stopping_world :: World where
  "stopping_world =
     running_world\<lparr>thr := (thr running_world)\<lparr>stopping := True\<rparr>,
       heap := [1 \<mapsto> (CreateUnbound TYPE_DEFAULT None)\<lparr>bound_to := Some 9,
                 loop_thread_name := ''worker-A'', incoming := [ThreadQuitHelper]\<rparr>],
       actions := actions running_world @ [PostTask ThreadQuitHelper]\<rparr>"

text \<open>
  The state after a Start on the stopped controller at which the operating system creates
  no thread.
\<close>

definition refused_world :: World where
  "refused_world =
     stopped_world\<lparr>thr := (thr stopped_world)\<lparr>id_event := \<lparr>manual_reset = True, signaled = False\<rparr>,
                        id_m := kInvalidThreadId,
                        start_event := \<lparr>manual_reset = False, signaled = False\<rparr>\<rparr>,
        next_free := 3,
        tls_bool := (tls_bool stopped_world)(1 := False),
        actions := actions stopped_world @ [Acquire thread_lock,
           CreateWithPriority 0 NORMAL False, Release thread_lock, Destroy_loop 2]\<rparr>"

section \<open>Properties of the error table\<close>

lemma switch_cases_none: "error \<notin> snd ` set tbl \<Longrightarrow> switch_cases tbl error = None"
  by (induction tbl) (auto split: prod.splits)

lemma switch_cases_entry:
  "distinct (map snd tbl) \<Longrightarrow> (label, v) \<in> set tbl \<Longrightarrow>
   switch_cases tbl v = Some (''net::ERR_'' @ label)"
proof (induction tbl)
  case Nil
  then show ?case by simp
next
  case (Cons e tbl)
  obtain l' v' where e: "e = (l', v')" by (cases e)
  show ?case
  proof (cases "v = v'")
    case True
    with Cons.prems e have "label = l'"
      by (auto simp: image_iff)
    with True e show ?thesis by simp
  next
    case False
    with Cons e show ?thesis by auto
  qed
qed

text \<open>
  C9. ErrorToString is a function of its argument alone (the table is fixed at compile
  time): it gives \<open>net::OK\<close> at 0, the entry \<open>net::ERR_label\<close> at every non-zero code
  of the list (a switch has pairwise distinct case values), \<open>net::<unknown>\<close> at every
  other code, and equal codes give equal strings.
\<close>

theorem ErrorToString_lookup:
  "ErrorToString tbl 0 = ''net::OK''
   \<and> (\<forall>label v. distinct (map snd tbl) \<and> (label, v) \<in> set tbl \<and> v \<noteq> 0
        \<longrightarrow> ErrorToString tbl v = ''net::ERR_'' @ label)
   \<and> (\<forall>error. error \<noteq> 0 \<and> error \<notin> snd ` set tbl
        \<longrightarrow> ErrorToString tbl error = ''net::<unknown>'')
   \<and> (\<forall>a b. a = b \<longrightarrow> ErrorToString tbl a = ErrorToString tbl b)"
  by (auto simp: ErrorToString_def switch_cases_none switch_cases_entry)

theorem ErrorToString_lookup_witness:
  "ErrorToString [(''IO_PENDING'', -1), (''FAILED'', -2)] 0 = ''net::OK''
   \<and> distinct (map snd [(''IO_PENDING'', -1::int), (''FAILED'', -2)])
   \<and> (''FAILED'', -2) \<in> set [(''IO_PENDING'', -1::int), (''FAILED'', -2)]
   \<and> ErrorToString [(''IO_PENDING'', -1), (''FAILED'', -2)] (-2) = ''net::ERR_FAILED''
   \<and> (-7::int) \<notin> snd ` set [(''IO_PENDING'', -1::int), (''FAILED'', -2)]
   \<and> ErrorToString [(''IO_PENDING'', -1), (''FAILED'', -2)] (-7) = ''net::<unknown>''"
  using ErrorToString_lookup [of "[(''IO_PENDING'', -1), (''FAILED'', -2)]"]
  by simp

section \<open>Properties of the preference store\<close>

text \<open>
  C8, as stated, fails: SetValue returns nothing. Storing 1 under \<open>a\<close> changes the empty
  store and leaves the other store as it is, and the two calls return the same (unit) value.
\<close>

theorem SetValue_returns_nothing_counterexample:
  "fst (SetValue store_empty ''a'' (IntegerValue 1) 0) = fst (SetValue store_a1 ''a'' (IntegerValue 1) 0)
   \<and> prefs (snd (SetValue store_empty ''a'' (IntegerValue 1) 0)) ''a'' \<noteq> prefs store_empty ''a''
   \<and> prefs (snd (SetValue store_a1 ''a'' (IntegerValue 1) 0)) = prefs store_a1"
  by (simp add: SetValue_def PrefValueMap_SetValue_def store_empty_def store_a1_def notify_changed_def)

text \<open>
  C8, amended. SetValue returns no value. It stores the value under the key, and it calls
  OnPrefValueChanged(key) once on every observer, in the order of the list, when the stored
  value is another one than before; it calls no observer when the value stored is equal to
  the one already there.
\<close>

theorem SetValue_notifies_iff_changed:
  "prefs (snd (SetValue s key v flags)) = (prefs s)(key \<mapsto> v)
   \<and> observers (snd (SetValue s key v flags)) = observers s
   \<and> calls (snd (SetValue s key v flags)) =
       calls s @ (if prefs (snd (SetValue s key v flags)) \<noteq> prefs s
                  then map (\<lambda>ob. OnPrefValueChanged ob key) (observers s) else [])"
proof (cases "prefs s key = Some v")
  case True
  then have "(prefs s)(key \<mapsto> v) = prefs s" by (simp add: fun_upd_idem)
  with True show ?thesis
    by (simp add: SetValue_def PrefValueMap_SetValue_def)
next
  case False
  then have "(prefs s)(key \<mapsto> v) \<noteq> prefs s"
    by (metis fun_upd_same)
  with False show ?thesis
    by (simp add: SetValue_def PrefValueMap_SetValue_def notify_changed_def)
qed

theorem SetValue_notifies_iff_changed_witness:
  "calls (snd (SetValue store_empty ''a'' (IntegerValue 1) 0)) = [OnPrefValueChanged 7 ''a'']
   \<and> calls (snd (SetValue store_a1 ''a'' (IntegerValue 1) 0)) = []"
proof -
  have e: "prefs (snd (SetValue store_empty ''a'' (IntegerValue 1) 0)) \<noteq> prefs store_empty"
    by (simp add: SetValue_def PrefValueMap_SetValue_def store_empty_def notify_changed_def)
  have a: "prefs (snd (SetValue store_a1 ''a'' (IntegerValue 1) 0)) = prefs store_a1"
    by (simp add: SetValue_def PrefValueMap_SetValue_def store_a1_def)
  show ?thesis
    using SetValue_notifies_iff_changed [of store_empty "''a''" "IntegerValue 1" 0]
      SetValue_notifies_iff_changed [of store_a1 "''a''" "IntegerValue 1" 0] e a
    by (simp add: store_empty_def store_a1_def)
qed

section \<open>Lemmas about the thread\<close>

lemma and_then_simps [simp]:
  "and_then (Returns x) f = f x"
  "and_then (Dies r) f = Dies r"
  "and_then Waits_forever f = Waits_forever"
  "and_then Not_modelled f = Not_modelled"
  by (simp_all add: and_then_def)

lemma and_then_Returns_iff:
  "and_then m f = Returns y \<longleftrightarrow> (\<exists>x. m = Returns x \<and> f x = Returns y)"
  by (cases m) simp_all

lemma DCHECK_Returns_iff:
  "DCHECK b c r w = Returns w' \<longleftrightarrow> (w' = w \<and> (dcheck_is_on b \<longrightarrow> c))"
  by (auto simp: DCHECK_def)

lemma ThreadMain_begin_Returns:
  assumes "ThreadMain_begin b w = Returns w'"
  obtains a l where
    "message_loop (thr w) = Some a" "heap w a = Some l"
    "w' = w\<lparr>thr := (thr w)\<lparr>id_m := worker_id (worker w), id_event := Signal (id_event (thr w)),
                 running := True, start_event := Signal (start_event (thr w))\<rparr>,
            heap := (heap w)(a \<mapsto> l\<lparr>bound_to := Some (worker_id (worker w)), loop_thread_name := name (thr w),
                         loop_timer_slack := message_loop_timer_slack (thr w)\<rparr>),
            worker := (worker w)\<lparr>owned_loop := Some a, at := In_Run\<rparr>,
            actions := actions w @ [Set_id (worker_id (worker w)), Signal_id_event, PlatformThread_SetName (name (thr w)),
               BindToCurrentThread a (worker_id (worker w)), set_thread_name (name (thr w)),
               SetTimerSlack (message_loop_timer_slack (thr w))] @ com_actions b (thr w) @
               [Init, Acquire running_lock, Set_running True, Release running_lock, Signal_start_event, Run a]\<rparr>"
    "dcheck_is_on b \<longrightarrow> worker_id (worker w) \<noteq> kInvalidThreadId"
  using assms
  unfolding ThreadMain_begin_def Let_def
  by (auto simp: and_then_Returns_iff DCHECK_Returns_iff did_def com_actions_def split: option.splits if_splits)

lemma GetThreadWasQuitProperly_cong [simp]:
  "GetThreadWasQuitProperly b t (did as w) = GetThreadWasQuitProperly b t w"
  "GetThreadWasQuitProperly b t (w\<lparr>thr := x\<rparr>) = GetThreadWasQuitProperly b t w"
  by (simp_all add: GetThreadWasQuitProperly_def did_def)

lemma ThreadMain_end_Returns:
  assumes "ThreadMain_end b w = Returns w'"
  obtains a l where
    "owned_loop (worker w) = Some a" "heap w a = Some l"
    "w' = w\<lparr>thr := (thr w)\<lparr>running := False, message_loop := None\<rparr>,
            heap := (heap w)(a := None),
            worker := (worker w)\<lparr>at := Returned, owned_loop := None\<rparr>,
            actions := actions w @ [Acquire running_lock, Set_running False, Release running_lock, CleanUp]
               @ com_end_actions b (thr w) @ quit_check_actions b (worker_id (worker w)) l w
               @ [Set_message_loop_null, Destroy_loop a]\<rparr>"
    "loop_type l \<noteq> TYPE_CUSTOM \<and> dcheck_is_on b \<longrightarrow> GetThreadWasQuitProperly b (worker_id (worker w)) w"
  using assms
  unfolding ThreadMain_end_def Let_def
  by (auto simp: and_then_Returns_iff DCHECK_Returns_iff did_def com_end_actions_def quit_check_actions_def
       GetThreadWasQuitProperly_def
       split: option.splits if_splits)

lemma run_task_frame [simp]:
  "thr (run_task a t x w) = thr w" "worker (run_task a t x w) = worker w"
  "actions (run_task a t x w) = actions w" "next_free (run_task a t x w) = next_free w"
  by (cases x; simp add: SetThreadWasQuitProperly_def QuitWhenIdle_def split: option.splits)+

lemma run_task_heap_dom [simp]: "(heap (run_task a t x w) a' = None) = (heap w a' = None)"
  by (cases x; simp add: SetThreadWasQuitProperly_def QuitWhenIdle_def split: option.splits)

lemma run_tasks_frame [simp]:
  "thr (run_tasks a t xs w) = thr w" "worker (run_tasks a t xs w) = worker w"
  "actions (run_tasks a t xs w) = actions w" "next_free (run_tasks a t xs w) = next_free w"
  by (induction xs arbitrary: w; simp)+

lemma run_tasks_heap_dom [simp]: "(heap (run_tasks a t xs w) a' = None) = (heap w a' = None)"
  by (induction xs arbitrary: w) simp_all

lemma take_incoming_frame [simp]:
  "thr (take_incoming a w) = thr w" "worker (take_incoming a w) = worker w"
  "actions (take_incoming a w) = actions w" "next_free (take_incoming a w) = next_free w"
  "tls_bool (take_incoming a w) = tls_bool w"
  "(heap (take_incoming a w) a' = None) = (heap w a' = None)"
  by (simp_all add: take_incoming_def split: option.splits)

lemma MessageLoop_Run_Returns:
  assumes "MessageLoop_Run a t w = Returns w'"
  shows "thr w' = thr w" "worker w' = worker w" "actions w' = actions w" "next_free w' = next_free w"
    "(heap w' a' = None) = (heap w a' = None)"
  using assms by (auto simp: MessageLoop_Run_def split: option.splits if_splits)

lemma consistent_cong:
  "thr w' = thr w \<Longrightarrow> worker w' = worker w \<Longrightarrow> (\<And>a. (heap w' a = None) = (heap w a = None)) \<Longrightarrow>
   consistent w' = consistent w"
  by (simp add: consistent_def split: Worker_At.splits option.splits)

lemma worker_step_consistent:
  assumes "consistent w" "worker_step b w = Returns w'"
  shows "consistent w'"
proof (cases "at (worker w)")
  case Created
  with assms(2) have "ThreadMain_begin b w = Returns w'" by (simp add: worker_step_def)
  then show ?thesis
    using assms(1) Created
    by (elim ThreadMain_begin_Returns) (simp add: consistent_def Signal_def)
next
  case In_Run
  with assms(1) obtain a where a: "owned_loop (worker w) = Some a" "message_loop (thr w) = Some a"
    by (auto simp: consistent_def split: option.splits)
  with assms(2) In_Run obtain w1 where
    r: "MessageLoop_Run a (worker_id (worker w)) w = Returns w1"
    and e: "(if Run_is_over a w1 then ThreadMain_end b w1 else Returns w1) = Returns w'"
    by (auto simp: worker_step_def and_then_Returns_iff)
  have c1: "consistent w1"
    using assms(1) MessageLoop_Run_Returns[OF r] by (simp add: consistent_cong[of w1 w])
  show ?thesis
  proof (cases "Run_is_over a w1")
    case True
    with e have "ThreadMain_end b w1 = Returns w'" by simp
    then show ?thesis
      using c1 In_Run MessageLoop_Run_Returns(2)[OF r]
      by (elim ThreadMain_end_Returns) (simp add: consistent_def)
  next
    case False
    with e c1 show ?thesis by simp
  qed
qed (use assms in \<open>simp_all add: worker_step_def\<close>)

lemma await_consistent:
  "consistent w \<Longrightarrow> await n ready b w = Returns w' \<Longrightarrow> consistent w' \<and> ready w'"
proof (induction n arbitrary: w)
  case 0
  then show ?case by (simp split: if_splits)
next
  case (Suc n)
  show ?case
  proof (cases "ready w")
    case True
    with Suc.prems show ?thesis by simp
  next
    case False
    with Suc.prems obtain w1 where "worker_step b w = Returns w1" "await n ready b w1 = Returns w'"
      by (auto simp: and_then_Returns_iff)
    with Suc.IH[of w1] Suc.prems(1) worker_step_consistent show ?thesis by blast
  qed
qed

lemma wait_until_consistent:
  "consistent w \<Longrightarrow> wait_until ready b w = Returns w' \<Longrightarrow> consistent w' \<and> ready w'"
  unfolding wait_until_def by (rule await_consistent)

lemma id_published_cong:
  "thr w' = thr w \<Longrightarrow> worker w' = worker w \<Longrightarrow> id_published w' = id_published w"
  by (simp add: id_published_def split: Worker_At.splits)

lemma worker_step_id_published:
  assumes "id_published w" "worker_step b w = Returns w'"
  shows "id_published w'"
proof (cases "at (worker w)")
  case Created
  with assms(2) have "ThreadMain_begin b w = Returns w'" by (simp add: worker_step_def)
  then show ?thesis
    by (elim ThreadMain_begin_Returns) (simp add: id_published_def Signal_def)
next
  case In_Run
  with assms(2) obtain a w1 where
    r: "MessageLoop_Run a (worker_id (worker w)) w = Returns w1"
    and e: "(if Run_is_over a w1 then ThreadMain_end b w1 else Returns w1) = Returns w'"
    by (auto simp: worker_step_def and_then_Returns_iff split: option.splits)
  have p1: "id_published w1" "at (worker w1) = In_Run"
    using assms(1) In_Run MessageLoop_Run_Returns(1,2)[OF r] by (simp_all add: id_published_cong[of w1 w])
  show ?thesis
  proof (cases "Run_is_over a w1")
    case True
    with e have "ThreadMain_end b w1 = Returns w'" by simp
    then show ?thesis
      using p1 by (elim ThreadMain_end_Returns) (simp add: id_published_def)
  next
    case False
    with e p1 show ?thesis by simp
  qed
qed (use assms in \<open>simp_all add: worker_step_def\<close>)

lemma await_id_published:
  "id_published w \<Longrightarrow> await n ready b w = Returns w' \<Longrightarrow> id_published w'"
proof (induction n arbitrary: w)
  case 0
  then show ?case by (simp split: if_splits)
next
  case (Suc n)
  show ?case
  proof (cases "ready w")
    case True
    with Suc.prems show ?thesis by simp
  next
    case False
    with Suc.prems obtain w1 where "worker_step b w = Returns w1" "await n ready b w1 = Returns w'"
      by (auto simp: and_then_Returns_iff)
    with Suc.IH[of w1] Suc.prems(1) worker_step_id_published show ?thesis by blast
  qed
qed

lemma wait_until_id_published:
  "id_published w \<Longrightarrow> wait_until ready b w = Returns w' \<Longrightarrow> id_published w'"
  unfolding wait_until_def by (rule await_id_published)

lemma worker_step_frame:
  assumes "worker_step b w = Returns w'"
  shows "thread (thr w') = thread (thr w)" "stopping (thr w') = stopping (thr w)"
    "worker_id (worker w') = worker_id (worker w)" "com_status (thr w') = com_status (thr w)"
    "manual_reset (id_event (thr w')) = manual_reset (id_event (thr w))"
proof -
  have "thread (thr w') = thread (thr w) \<and> stopping (thr w') = stopping (thr w) \<and>
    worker_id (worker w') = worker_id (worker w) \<and> com_status (thr w') = com_status (thr w) \<and>
    manual_reset (id_event (thr w')) = manual_reset (id_event (thr w))"
  proof (cases "at (worker w)")
    case Created
    with assms have "ThreadMain_begin b w = Returns w'" by (simp add: worker_step_def)
    then show ?thesis by (elim ThreadMain_begin_Returns) (simp add: Signal_def)
  next
    case In_Run
    with assms obtain a w1 where
      r: "MessageLoop_Run a (worker_id (worker w)) w = Returns w1"
      and e: "(if Run_is_over a w1 then ThreadMain_end b w1 else Returns w1) = Returns w'"
      by (auto simp: worker_step_def and_then_Returns_iff split: option.splits)
    show ?thesis
    proof (cases "Run_is_over a w1")
      case True
      with e have "ThreadMain_end b w1 = Returns w'" by simp
      then show ?thesis
        using MessageLoop_Run_Returns(1,2)[OF r]
        by (elim ThreadMain_end_Returns) simp
    next
      case False
      with e MessageLoop_Run_Returns(1,2)[OF r] show ?thesis by simp
    qed
  qed (use assms in \<open>simp_all add: worker_step_def\<close>)
  then show "thread (thr w') = thread (thr w)" "stopping (thr w') = stopping (thr w)"
    "worker_id (worker w') = worker_id (worker w)" "com_status (thr w') = com_status (thr w)"
    "manual_reset (id_event (thr w')) = manual_reset (id_event (thr w))"
    by simp_all
qed

lemma await_frame:
  "await n ready b w = Returns w' \<Longrightarrow>
   thread (thr w') = thread (thr w) \<and> stopping (thr w') = stopping (thr w) \<and>
   worker_id (worker w') = worker_id (worker w) \<and> com_status (thr w') = com_status (thr w)"
proof (induction n arbitrary: w)
  case 0
  then show ?case by (simp split: if_splits)
next
  case (Suc n)
  show ?case
  proof (cases "ready w")
    case True
    with Suc.prems show ?thesis by simp
  next
    case False
    with Suc.prems obtain w1 where s: "worker_step b w = Returns w1" "await n ready b w1 = Returns w'"
      by (auto simp: and_then_Returns_iff)
    from Suc.IH[OF s(2)] worker_step_frame[OF s(1)] show ?thesis by simp
  qed
qed

lemma wait_until_frame:
  "wait_until ready b w = Returns w' \<Longrightarrow>
   thread (thr w') = thread (thr w) \<and> stopping (thr w') = stopping (thr w) \<and>
   worker_id (worker w') = worker_id (worker w) \<and> com_status (thr w') = com_status (thr w)"
  unfolding wait_until_def by (rule await_frame)

lemma wait_until_ready: "ready w \<Longrightarrow> wait_until ready b w = Returns w"
  by (simp add: wait_until_def numeral_3_eq_3)

lemma same_id_event [simp]:
  "manual_reset (id_event (thr w)) \<Longrightarrow> w\<lparr>thr := (thr w)\<lparr>id_event := after_Wait (id_event (thr w))\<rparr>\<rparr> = w"
  by (simp add: after_Wait_def)

lemma GetThreadId_Returns:
  assumes "consistent w" "GetThreadId b w = Returns (i, w')"
  shows "consistent w'" "i = id_m (thr w')" "signaled (id_event (thr w'))"
    "thread (thr w') = thread (thr w)" "stopping (thr w') = stopping (thr w)"
    "worker_id (worker w') = worker_id (worker w)"
proof -
  from assms(2) obtain w1 where
    w1: "wait_until (\<lambda>w. signaled (id_event (thr w))) b w = Returns w1"
    and i: "i = id_m (thr w1)"
    and w': "w' = w1\<lparr>thr := (thr w1)\<lparr>id_event := after_Wait (id_event (thr w1))\<rparr>\<rparr>"
    by (auto simp: GetThreadId_def and_then_Returns_iff)
  from wait_until_consistent[OF assms(1) w1] have c: "consistent w1" "signaled (id_event (thr w1))"
    by simp_all
  then have "manual_reset (id_event (thr w1))" by (simp add: consistent_def)
  with w' have eq: "w' = w1" by simp
  with c i wait_until_frame[OF w1]
  show "consistent w'" "i = id_m (thr w')" "signaled (id_event (thr w'))"
    "thread (thr w') = thread (thr w)" "stopping (thr w') = stopping (thr w)"
    "worker_id (worker w') = worker_id (worker w)"
    by simp_all
qed

lemma GetThreadId_published:
  assumes "manual_reset (id_event (thr w))" "signaled (id_event (thr w))"
  shows "GetThreadId b w = Returns (id_m (thr w), w)"
  using assms by (simp add: GetThreadId_def wait_until_ready)

lemma did_frame [simp]:
  "thr (did as w) = thr w" "worker (did as w) = worker w" "heap (did as w) = heap w"
  "tls_bool (did as w) = tls_bool w" "next_free (did as w) = next_free w"
  "actions (did as w) = actions w @ as"
  by (simp_all add: did_def)

lemma consistent_did [simp]: "consistent (did as w) = consistent w"
  by (rule consistent_cong) simp_all

lemma post_task_Returns:
  assumes "post_task x w = Returns w'"
  obtains a l where "message_loop (thr w) = Some a" "heap w a = Some l"
    "w' = w\<lparr>heap := (heap w)(a \<mapsto> l\<lparr>incoming := incoming l @ [x]\<rparr>), actions := actions w @ [PostTask x]\<rparr>"
  using assms by (auto simp: post_task_def did_def split: option.splits)

lemma post_task_consistent:
  assumes "consistent w" "post_task x w = Returns w'"
  shows "consistent w'" "thr w' = thr w" "worker w' = worker w"
  using assms(2)
  by (elim post_task_Returns; use assms(1) in \<open>auto simp: consistent_def split: Worker_At.splits option.splits\<close>)+

lemma StopSoon_Returns:
  assumes "consistent w" "StopSoon b cur w = Returns w'"
  shows "consistent w'" "thread (thr w') = thread (thr w)" "worker_id (worker w') = worker_id (worker w)"
proof -
  from assms(2) obtain w1 where
    g: "(if dcheck_is_on b
        then and_then (GetThreadId b w) (\<lambda>(i, w1). DCHECK b (i \<noteq> cur) DCHECK_not_on_worker w1)
        else Returns w) = Returns w1"
    and rest: "(if stopping (thr w1) \<or> message_loop (thr w1) = None then Returns w1
       else post_task ThreadQuitHelper (w1\<lparr>thr := (thr w1)\<lparr>stopping := True\<rparr>\<rparr>)) = Returns w'"
    unfolding StopSoon_def by (auto simp: and_then_Returns_iff)
  have c1: "consistent w1 \<and> thread (thr w1) = thread (thr w) \<and> worker_id (worker w1) = worker_id (worker w)"
  proof (cases "dcheck_is_on b")
    case True
    with g obtain i where "GetThreadId b w = Returns (i, w1)"
      by (auto simp: and_then_Returns_iff DCHECK_Returns_iff)
    from GetThreadId_Returns[OF assms(1) this] show ?thesis by simp
  next
    case False
    with g assms(1) show ?thesis by simp
  qed
  have "consistent w' \<and> thread (thr w') = thread (thr w1) \<and> worker_id (worker w') = worker_id (worker w1)"
  proof (cases "stopping (thr w1) \<or> message_loop (thr w1) = None")
    case True
    with rest c1 show ?thesis by auto
  next
    case False
    let ?w2 = "w1\<lparr>thr := (thr w1)\<lparr>stopping := True\<rparr>\<rparr>"
    from False rest have p: "post_task ThreadQuitHelper ?w2 = Returns w'" by auto
    from False c1 have "consistent ?w2"
      by (auto simp: consistent_def split: Worker_At.splits option.splits)
    from post_task_consistent[OF this p] show ?thesis by simp
  qed
  with c1 show "consistent w'" "thread (thr w') = thread (thr w)" "worker_id (worker w') = worker_id (worker w)"
    by simp_all
qed

lemma GetThreadId_id_published:
  assumes "consistent w" "id_published w" "GetThreadId b w = Returns (i, w')"
  shows "id_published w'"
proof -
  from assms(3) obtain w1 where
    w1: "wait_until (\<lambda>w. signaled (id_event (thr w))) b w = Returns w1"
    and w': "w' = w1\<lparr>thr := (thr w1)\<lparr>id_event := after_Wait (id_event (thr w1))\<rparr>\<rparr>"
    by (auto simp: GetThreadId_def and_then_Returns_iff)
  from wait_until_consistent[OF assms(1) w1] have "manual_reset (id_event (thr w1))"
    by (simp add: consistent_def)
  with w' have "w' = w1" by simp
  with wait_until_id_published[OF assms(2) w1] show ?thesis by simp
qed

lemma StopSoon_id_published:
  assumes "consistent w" "id_published w" "StopSoon b cur w = Returns w'"
  shows "id_published w'"
proof -
  from assms(3) obtain w1 where
    g: "(if dcheck_is_on b
        then and_then (GetThreadId b w) (\<lambda>(i, w1). DCHECK b (i \<noteq> cur) DCHECK_not_on_worker w1)
        else Returns w) = Returns w1"
    and rest: "(if stopping (thr w1) \<or> message_loop (thr w1) = None then Returns w1
       else post_task ThreadQuitHelper (w1\<lparr>thr := (thr w1)\<lparr>stopping := True\<rparr>\<rparr>)) = Returns w'"
    unfolding StopSoon_def by (auto simp: and_then_Returns_iff)
  have p1: "id_published w1"
  proof (cases "dcheck_is_on b")
    case True
    with g obtain i where "GetThreadId b w = Returns (i, w1)"
      by (auto simp: and_then_Returns_iff DCHECK_Returns_iff)
    from GetThreadId_id_published[OF assms(1,2) this] show ?thesis .
  next
    case False
    with g assms(2) show ?thesis by simp
  qed
  show ?thesis
  proof (cases "stopping (thr w1) \<or> message_loop (thr w1) = None")
    case True
    with rest p1 show ?thesis by auto
  next
    case False
    with rest have "post_task ThreadQuitHelper (w1\<lparr>thr := (thr w1)\<lparr>stopping := True\<rparr>\<rparr>) = Returns w'"
      by auto
    then show ?thesis
      using p1 by (elim post_task_Returns) (simp add: id_published_def split: Worker_At.splits)
  qed
qed

lemma Stop_never_started:
  "thread (thr w) = 0 \<Longrightarrow> Stop b cur w = Returns (did [Acquire thread_lock, Release thread_lock] w)"
  by (simp add: Stop_def did_def Let_def)

lemma Stop_Returns:
  assumes "consistent w" "Stop b cur w = Returns w'"
  shows "consistent w'" "at (worker w') = No_worker"
    "thread (thr w) \<noteq> 0 \<and> id_published w \<longrightarrow>
       signaled (id_event (thr w')) \<and> id_m (thr w') = worker_id (worker w)
       \<and> worker_id (worker w) \<noteq> kInvalidThreadId"
proof -
  have "consistent w' \<and> at (worker w') = No_worker \<and>
    (thread (thr w) \<noteq> 0 \<and> id_published w \<longrightarrow>
       signaled (id_event (thr w')) \<and> id_m (thr w') = worker_id (worker w)
       \<and> worker_id (worker w) \<noteq> kInvalidThreadId)"
  proof (cases "thread (thr w) = 0")
    case True
    with assms show ?thesis
      by (auto simp: Stop_never_started consistent_def split: Worker_At.splits)
  next
    case False
    let ?w1 = "did [Acquire thread_lock] w"
    have c1: "consistent ?w1" using assms(1) by simp
    from False assms(2) obtain w2 w3 where
      s: "StopSoon b cur ?w1 = Returns w2"
      and j: "wait_until (\<lambda>w. at (worker w) = Returned) b (did [Join (thread (thr w2))] w2) = Returns w3"
      and w': "w' = did [Release thread_lock]
                 (w3\<lparr>worker := (worker w3)\<lparr>at := No_worker\<rparr>, thr := (thr w3)\<lparr>thread := 0, stopping := False\<rparr>\<rparr>)"
      unfolding Stop_def Let_def
      by (auto simp: and_then_Returns_iff DCHECK_Returns_iff did_def)
    from StopSoon_Returns[OF c1 s] have c2: "consistent w2" "worker_id (worker w2) = worker_id (worker w)"
      by simp_all
    then have c2': "consistent (did [Join (thread (thr w2))] w2)" by simp
    from wait_until_consistent[OF c2' j] wait_until_frame[OF j] c2(2)
    have c3: "consistent w3" "at (worker w3) = Returned" "worker_id (worker w3) = worker_id (worker w)"
      by simp_all
    have "id_published w3" if "id_published w"
    proof -
      from that have "id_published ?w1" by (simp add: id_published_cong[of ?w1 w])
      from StopSoon_id_published[OF c1 this s] have "id_published (did [Join (thread (thr w2))] w2)"
        by (simp add: id_published_cong[of "did [Join (thread (thr w2))] w2" w2])
      from wait_until_id_published[OF this j] show ?thesis .
    qed
    with c3 w' show ?thesis by (auto simp: consistent_def id_published_def)
  qed
  then show "consistent w'" "at (worker w') = No_worker"
    "thread (thr w) \<noteq> 0 \<and> id_published w \<longrightarrow>
       signaled (id_event (thr w')) \<and> id_m (thr w') = worker_id (worker w)
       \<and> worker_id (worker w) \<noteq> kInvalidThreadId"
    by simp_all
qed

lemma Start_created:
  assumes "message_loop (thr w) = None"
  shows "\<exists>w'. Start b cur (Some (h, t)) w = Returns (True, w')"
  using assms
  by (simp add: Start_def StartWithOptions_def Let_def DCHECK_def did_def Options_default_def
      SetThreadWasQuitProperly_def)

lemma fun_upd_const_same [simp]: "(\<lambda>t. c)(x := c) = (\<lambda>t. c)"
  by (simp add: fun_eq_iff)

lemma started_world_Start:
  "Start debug_build 1 (Some (5, 9)) (World_new ''worker-A'') = Returns (True, started_world)"
  by (simp add: Start_def StartWithOptions_def Let_def DCHECK_def did_def Options_default_def
      SetThreadWasQuitProperly_def World_new_def Thread_new_def started_world_def debug_build_def
      WaitableEvent_new_def Reset_def kInvalidThreadId_def)

lemma started_world_consistent: "consistent started_world"
  by (simp add: consistent_def started_world_def Thread_new_def WaitableEvent_new_def kInvalidThreadId_def)

lemmas eval_defs = Stop_def StopSoon_def GetThreadId_def wait_until_def numeral_3_eq_3 worker_step_def
  ThreadMain_begin_def ThreadMain_end_def MessageLoop_Run_def Run_is_over_def take_incoming_def
  post_task_def DCHECK_def did_def Let_def Signal_def Reset_def after_Wait_def CreateUnbound_def
  GetThreadWasQuitProperly_def SetThreadWasQuitProperly_def QuitWhenIdle_def kInvalidThreadId_def
  Thread_new_def WaitableEvent_new_def

lemma started_world_stopped: "Stop debug_build 1 started_world = Returns stopped_world"
  by (simp add: eval_defs started_world_def debug_build_def stopped_world_def com_actions_def fun_eq_iff)

lemma StartWithOptions_Returns:
  assumes "StartWithOptions b cur os options w = Returns (r, w')"
  shows "r = (message_loop (thr w') \<noteq> None)" "r = (os \<noteq> None)" "message_loop (thr w) = None"
  using assms
  by (auto simp: StartWithOptions_def Let_def and_then_Returns_iff DCHECK_Returns_iff
      SetThreadWasQuitProperly_def split: if_splits option.splits)

lemma Start_Returns:
  assumes "Start b cur os w = Returns (r, w')"
  shows "r = (message_loop (thr w') \<noteq> None)" "r = (os \<noteq> None)" "message_loop (thr w) = None"
  using StartWithOptions_Returns[OF assms[unfolded Start_def]] by simp_all

lemma WaitUntilThreadStarted_live:
  "message_loop (thr w) \<noteq> None \<Longrightarrow>
   and_then (WaitUntilThreadStarted b w) (\<lambda>(ignored, w2). Returns (True, w2)) =
   and_then (WaitUntilThreadStarted b w) (\<lambda>(waited, w2). Returns (waited, w2))"
  by (cases "wait_until (\<lambda>w. signaled (start_event (thr w))) b w")
     (simp_all add: WaitUntilThreadStarted_def)

lemma started_world_waited:
  "WaitUntilThreadStarted debug_build started_world = Returns (True, running_world)"
  by (simp add: WaitUntilThreadStarted_def eval_defs started_world_def debug_build_def running_world_def com_actions_def)

lemma StartWithOptions_precondition:
  assumes "StartWithOptions b cur os options w = Returns (r, w')"
  shows "message_loop (thr w) = None"
    "dcheck_is_on b \<and> os_win b \<and> com_status (thr w) = STA \<longrightarrow> message_loop_type options = TYPE_UI"
  using assms
  by (auto simp: StartWithOptions_def and_then_Returns_iff DCHECK_Returns_iff split: if_splits)

lemma StartWithOptions_refused:
  assumes "message_loop (thr w) = None"
    "dcheck_is_on b \<and> os_win b \<and> com_status (thr w) = STA \<longrightarrow> message_loop_type options = TYPE_UI"
  shows "StartWithOptions b cur None options w =
    Returns (False,
      w\<lparr>thr := (thr w)\<lparr>id_event := Reset (id_event (thr w)), id_m := kInvalidThreadId,
                        message_loop_timer_slack := timer_slack options,
                        start_event := Reset (start_event (thr w))\<rparr>,
        heap := (heap w)(next_free w := None),
        next_free := Suc (next_free w),
        tls_bool := (tls_bool w)(cur := False),
        actions := actions w @ [Acquire thread_lock,
           CreateWithPriority (stack_size options) (priority options) False,
           Release thread_lock, Destroy_loop (next_free w)]\<rparr>)"
  using assms
  by (auto simp: StartWithOptions_def Let_def DCHECK_def did_def SetThreadWasQuitProperly_def)

lemma StartWithOptions_created:
  assumes "message_loop (thr w) = None"
    "dcheck_is_on b \<and> os_win b \<and> com_status (thr w) = STA \<longrightarrow> message_loop_type options = TYPE_UI"
  shows "StartWithOptions b cur (Some (h, t)) options w =
    Returns (True,
      w\<lparr>thr := (thr w)\<lparr>id_event := Reset (id_event (thr w)), id_m := kInvalidThreadId,
                        message_loop_timer_slack := timer_slack options,
                        message_loop := Some (next_free w),
                        start_event := Reset (start_event (thr w)), thread := h\<rparr>,
        heap := (heap w)(next_free w \<mapsto>
           CreateUnbound (if message_pump_factory options \<noteq> None then TYPE_CUSTOM
                          else message_loop_type options) (message_pump_factory options)),
        next_free := Suc (next_free w),
        tls_bool := (tls_bool w)(cur := False),
        worker := \<lparr>at = Created, worker_id = t, owned_loop = None\<rparr>,
        actions := actions w @ [Acquire thread_lock,
           CreateWithPriority (stack_size options) (priority options) True,
           Release thread_lock]\<rparr>)"
  using assms
  by (auto simp: StartWithOptions_def Let_def DCHECK_def did_def SetThreadWasQuitProperly_def)

lemma StartWithOptions_consistent:
  assumes "consistent w" "StartWithOptions b cur os options w = Returns (r, w')"
    "case os of None \<Rightarrow> True | Some (h, t) \<Rightarrow> h \<noteq> 0 \<and> t \<noteq> kInvalidThreadId"
  shows "consistent w'"
proof (cases os)
  case None
  from assms(2)[unfolded None StartWithOptions_refused[OF StartWithOptions_precondition[OF assms(2)]]]
    assms(1) StartWithOptions_precondition(1)[OF assms(2)]
  show ?thesis
    by (auto simp: consistent_def Reset_def split: Worker_At.splits)
next
  case (Some p)
  obtain h t where p: "p = (h, t)" by (cases p)
  from assms(2)[unfolded Some p StartWithOptions_created[OF StartWithOptions_precondition[OF assms(2)]]]
    assms(1,3) Some p StartWithOptions_precondition(1)[OF assms(2)]
  show ?thesis
    by (auto simp: consistent_def Reset_def split: Worker_At.splits)
qed

lemma Start_consistent:
  assumes "consistent w" "Start b cur os w = Returns (r, w')"
    "case os of None \<Rightarrow> True | Some (h, t) \<Rightarrow> h \<noteq> 0 \<and> t \<noteq> kInvalidThreadId"
  shows "consistent w'"
  using StartWithOptions_consistent[OF assms(1) assms(2)[unfolded Start_def] assms(3)] .

lemma WaitUntilThreadStarted_consistent:
  assumes "consistent w" "WaitUntilThreadStarted b w = Returns (r, w')"
  shows "consistent w'"
proof (cases "message_loop (thr w) = None")
  case True
  with assms show ?thesis by (simp add: WaitUntilThreadStarted_def)
next
  case False
  with assms(2) obtain w1 where
    w1: "wait_until (\<lambda>w. signaled (start_event (thr w))) b w = Returns w1"
    and w': "w' = w1\<lparr>thr := (thr w1)\<lparr>start_event := after_Wait (start_event (thr w1))\<rparr>\<rparr>"
    by (auto simp: WaitUntilThreadStarted_def and_then_Returns_iff)
  from wait_until_consistent[OF assms(1) w1] w' show ?thesis
    by (auto simp: consistent_def split: Worker_At.splits option.splits)
qed

lemma IsRunning_consistent: "consistent w \<Longrightarrow> consistent (snd (IsRunning w))"
  by (simp add: IsRunning_def)

lemma World_new_consistent: "consistent (World_new nm)"
  by (simp add: consistent_def World_new_def Thread_new_def WaitableEvent_new_def)

lemma ThreadMain_begin_eq:
  assumes "message_loop (thr w) = Some a" "heap w a = Some l"
    "dcheck_is_on b \<longrightarrow> worker_id (worker w) \<noteq> kInvalidThreadId"
  shows "ThreadMain_begin b w = Returns
    (w\<lparr>thr := (thr w)\<lparr>id_m := worker_id (worker w), id_event := Signal (id_event (thr w)),
                 running := True, start_event := Signal (start_event (thr w))\<rparr>,
            heap := (heap w)(a \<mapsto> l\<lparr>bound_to := Some (worker_id (worker w)), loop_thread_name := name (thr w),
                         loop_timer_slack := message_loop_timer_slack (thr w)\<rparr>),
            worker := (worker w)\<lparr>owned_loop := Some a, at := In_Run\<rparr>,
            actions := actions w @ [Set_id (worker_id (worker w)), Signal_id_event, PlatformThread_SetName (name (thr w)),
               BindToCurrentThread a (worker_id (worker w)), set_thread_name (name (thr w)),
               SetTimerSlack (message_loop_timer_slack (thr w))] @ com_actions b (thr w) @
               [Init, Acquire running_lock, Set_running True, Release running_lock, Signal_start_event, Run a]\<rparr>)"
  using assms
  unfolding ThreadMain_begin_def Let_def
  by (auto simp: DCHECK_def did_def com_actions_def)




lemma run_task_heap:
  assumes "heap w a = Some l"
  shows "heap (run_task a t x w) a = Some (l\<lparr>quit_when_idle_received := quit_when_idle_received l \<or> is_quit_task x\<rparr>)"
  using assms
  by (cases x) (simp_all add: SetThreadWasQuitProperly_def QuitWhenIdle_def is_quit_task_def)

lemma run_tasks_heap:
  assumes "heap w a = Some l"
  shows "heap (run_tasks a t xs w) a =
     Some (l\<lparr>quit_when_idle_received := quit_when_idle_received l \<or> (\<exists>x \<in> set xs. is_quit_task x)\<rparr>)"
  using assms
proof (induction xs arbitrary: w l)
  case Nil
  then show ?case by simp
next
  case (Cons x xs)
  from Cons.IH[OF run_task_heap[OF Cons.prems, of t x]] show ?case
    by simp
qed


lemma worker_step_In_Run_then_waits:
  assumes "at (worker w) = In_Run" "worker_step b w = Returns w'"
  shows "worker_step b w' = Waits_forever"
proof -
  let ?t = "worker_id (worker w)"
  from assms obtain a where a: "owned_loop (worker w) = Some a"
    by (auto simp: worker_step_def split: option.splits)
  with assms obtain w1 where r: "MessageLoop_Run a ?t w = Returns w1"
    and e: "(if Run_is_over a w1 then ThreadMain_end b w1 else Returns w1) = Returns w'"
    by (auto simp: worker_step_def and_then_Returns_iff)
  from r obtain l where l: "heap w a = Some l"
    and w1: "w1 = run_tasks a ?t (incoming l) (take_incoming a w)"
    by (auto simp: MessageLoop_Run_def split: option.splits if_splits)
  have h0: "heap (take_incoming a w) a = Some (l\<lparr>incoming := []\<rparr>)"
    using l by (simp add: take_incoming_def)
  from run_tasks_heap[OF h0, of ?t "incoming l"] w1
  have h1: "heap w1 a = Some (l\<lparr>incoming := [],
      quit_when_idle_received := quit_when_idle_received l \<or> (\<exists>x \<in> set (incoming l). is_quit_task x)\<rparr>)"
    by simp
  show ?thesis
  proof (cases "Run_is_over a w1")
    case True
    with e have "ThreadMain_end b w1 = Returns w'" by simp
    then have "at (worker w') = Returned" by (elim ThreadMain_end_Returns) simp
    then show ?thesis by (simp add: worker_step_def)
  next
    case False
    with e have "w' = w1" by simp
    moreover from False h1 have "MessageLoop_Run a (worker_id (worker w1)) w1 = Waits_forever"
      by (simp add: MessageLoop_Run_def Run_is_over_def)
    moreover have "at (worker w1) = In_Run" "owned_loop (worker w1) = Some a"
      using w1 assms(1) a by simp_all
    ultimately show ?thesis by (simp add: worker_step_def)
  qed
qed

lemma worker_step_thrice:
  assumes "worker_step b w = Returns w1" "worker_step b w1 = Returns w2"
  shows "worker_step b w2 = Waits_forever"
proof (cases "at (worker w)")
  case Created
  with assms(1) have "ThreadMain_begin b w = Returns w1" by (simp add: worker_step_def)
  then have "at (worker w1) = In_Run" by (elim ThreadMain_begin_Returns) simp
  from worker_step_In_Run_then_waits[OF this assms(2)] show ?thesis .
next
  case In_Run
  from worker_step_In_Run_then_waits[OF this assms(1)] assms(2) show ?thesis by simp
qed (use assms in \<open>simp_all add: worker_step_def\<close>)

lemma running_world_StopSoon:
  "StopSoon debug_build 1 running_world = Returns stopping_world"
  by (simp add: eval_defs running_world_def stopping_world_def debug_build_def)

lemma StartAndWaitForTesting_eq:
  "StartAndWaitForTesting b cur os w = Start_then_WaitUntilStarted b cur os w"
proof (cases "Start b cur os w")
  case (Returns p)
  obtain r w1 where p: "p = (r, w1)" by (cases p)
  show ?thesis
  proof (cases r)
    case True
    with Returns p Start_Returns(1)[of b cur os w r w1] have "message_loop (thr w1) \<noteq> None" by simp
    from WaitUntilThreadStarted_live[OF this] Returns p True show ?thesis
      by (simp add: StartAndWaitForTesting_def Start_then_WaitUntilStarted_def)
  next
    case False
    with Returns p Start_Returns(1)[of b cur os w r w1] have "message_loop (thr w1) = None" by simp
    with Returns p False show ?thesis
      by (simp add: StartAndWaitForTesting_def Start_then_WaitUntilStarted_def WaitUntilThreadStarted_def)
  qed
qed (simp_all add: StartAndWaitForTesting_def Start_then_WaitUntilStarted_def)

lemma WaitUntilThreadStarted_live_Returns:
  "message_loop (thr w) \<noteq> None \<Longrightarrow> WaitUntilThreadStarted b w = Returns (r, w') \<Longrightarrow> r"
  by (auto simp: WaitUntilThreadStarted_def and_then_Returns_iff)

text \<open>
  After a successful Start the worker can only get into \<^verbatim>\<open>Run\<close> and wait there: the queue
  of the new loop is empty. So the loop pointer stays set until somebody posts a task that
  quits the loop, however the two threads are scheduled.
\<close>

lemma Start_eq_StartWithOptions:
  "Start b cur os w = Returns (r, w') \<Longrightarrow> \<exists>options. StartWithOptions b cur os options w = Returns (r, w')"
  unfolding Start_def by (rule exI)

lemma fresh_worker_stays_in_Run:
  assumes "Start b cur (Some (h, t)) w = Returns (True, w1)" "worker_step b w1 = Returns w2"
  shows "message_loop (thr w2) \<noteq> None" "worker_step b w2 = Waits_forever"
proof -
  from Start_eq_StartWithOptions[OF assms(1)] obtain options where
    s: "StartWithOptions b cur (Some (h, t)) options w = Returns (True, w1)" by blast
  note e = s[unfolded StartWithOptions_created[OF StartWithOptions_precondition[OF s]]]
  let ?a = "next_free w"
  let ?l = "CreateUnbound (if message_pump_factory options \<noteq> None then TYPE_CUSTOM
                          else message_loop_type options) (message_pump_factory options)"
  from e have w1: "w1 = w\<lparr>thr := (thr w)\<lparr>id_event := Reset (id_event (thr w)), id_m := kInvalidThreadId,
                        message_loop_timer_slack := timer_slack options,
                        message_loop := Some (next_free w),
                        start_event := Reset (start_event (thr w)), thread := h\<rparr>,
        heap := (heap w)(next_free w \<mapsto> ?l),
        next_free := Suc (next_free w),
        tls_bool := (tls_bool w)(cur := False),
        worker := \<lparr>at = Created, worker_id = t, owned_loop = None\<rparr>,
        actions := actions w @ [Acquire thread_lock,
           CreateWithPriority (stack_size options) (priority options) True,
           Release thread_lock]\<rparr>"
    by simp
  have c: "at (worker w1) = Created" "message_loop (thr w1) = Some ?a"
    and h: "heap w1 ?a = Some ?l"
    by (simp_all add: w1)
  from assms(2) c(1) have b: "ThreadMain_begin b w1 = Returns w2" by (simp add: worker_step_def)
  have w2: "message_loop (thr w2) = Some ?a \<and> at (worker w2) = In_Run \<and>
    owned_loop (worker w2) = Some ?a \<and>
    (\<exists>l. heap w2 ?a = Some l \<and> incoming l = [] \<and> \<not> quit_when_idle_received l)"
    using b c(2) h by (elim ThreadMain_begin_Returns) (auto simp: CreateUnbound_def)
  from w2 show "message_loop (thr w2) \<noteq> None" by simp
  from w2 show "worker_step b w2 = Waits_forever"
    by (auto simp: worker_step_def MessageLoop_Run_def)
qed

lemma stopped_world_refused:
  "Start debug_build 1 None stopped_world = Returns (False, refused_world)"
  by (simp add: Start_def StartWithOptions_def Let_def DCHECK_def did_def Options_default_def
      SetThreadWasQuitProperly_def stopped_world_def refused_world_def Thread_new_def
      debug_build_def Reset_def kInvalidThreadId_def WaitableEvent_new_def fun_eq_iff)

lemma Start_refused_returned:
  "message_loop (thr w) = None \<Longrightarrow> returned (Start b cur None w) = Some False"
  by (simp add: Start_def StartWithOptions_refused returned_def Options_default_def)

section \<open>Properties of the controller and the worker\<close>

text \<open>
  C3. IsRunning answers true when the loop pointer is set and \<open>stopping\<close> is false, without
  taking a lock; otherwise it answers \<open>running\<close>, read between the acquisition and the
  release of \<open>running_lock\<close>. So its answer is
  \<open>(message_loop \<noteq> null \<and> \<not> stopping) \<or> running\<close> in every state.
\<close>

theorem IsRunning_value:
  "fst (IsRunning w) = ((message_loop (thr w) \<noteq> None \<and> \<not> stopping (thr w)) \<or> running (thr w))
   \<and> snd (IsRunning w) =
       (if message_loop (thr w) \<noteq> None \<and> \<not> stopping (thr w) then w
        else did [Acquire running_lock, Read_running (running (thr w)), Release running_lock] w)"
  by (simp add: IsRunning_def)

theorem IsRunning_value_witness:
  "fst (IsRunning started_world) \<and> \<not> fst (IsRunning stopped_world)
   \<and> actions (snd (IsRunning stopped_world)) =
       actions stopped_world @ [Acquire running_lock, Read_running False, Release running_lock]"
  using IsRunning_value [of started_world] IsRunning_value [of stopped_world]
  by (simp add: started_world_def stopped_world_def Thread_new_def)

text \<open>
  C6. Stop on a controller whose native handle is null returns at once: it takes and
  releases \<open>thread_lock\<close>, joins nothing (no \<open>Join\<close> among its actions), and leaves the
  controller object, the heap, the thread-local flags and the worker as they were.
\<close>

theorem Stop_never_started_is_noop:
  "thread (thr w) = 0 \<Longrightarrow>
   (\<exists>w'. Stop b cur w = Returns w' \<and> thr w' = thr w \<and> heap w' = heap w \<and> tls_bool w' = tls_bool w
      \<and> worker w' = worker w \<and> next_free w' = next_free w
      \<and> actions w' = actions w @ [Acquire thread_lock, Release thread_lock])"
  by (simp add: Stop_never_started)

theorem Stop_never_started_is_noop_witness:
  "thread (thr (World_new ''worker-A'')) = 0
   \<and> (\<exists>w'. Stop debug_build 1 (World_new ''worker-A'') = Returns w'
         \<and> thr w' = Thread_new ''worker-A'' \<and> actions w' = [Acquire thread_lock, Release thread_lock])"
proof -
  have h: "thread (thr (World_new ''worker-A'')) = 0"
    by (simp add: World_new_def Thread_new_def)
  show ?thesis
    using h Stop_never_started_is_noop [OF h, of debug_build 1]
    by (auto simp: World_new_def)
qed

text \<open>
  C2, as stated, fails: after Stop has returned, a Start at which the operating system
  creates no thread returns false.
\<close>

theorem restart_refused_counterexample:
  "consistent started_world \<and> Stop debug_build 1 started_world = Returns stopped_world
   \<and> returned (Start debug_build 1 None stopped_world) = Some False"
proof -
  have "returned (Start debug_build 1 None stopped_world) = Some False"
    by (simp add: returned_def Start_def StartWithOptions_def Let_def DCHECK_def did_def
        Options_default_def SetThreadWasQuitProperly_def stopped_world_def Thread_new_def
        debug_build_def)
  with started_world_consistent started_world_stopped show ?thesis by simp
qed

text \<open>
  C2, amended. In every consistent state of a controller, when Stop returns, \<open>stopping\<close>
  is false, the loop pointer is null, IsRunning answers false, and a Start that follows
  returns true whenever the operating system creates the thread, and false when it creates
  none.
\<close>

theorem Stop_then_restart:
  "consistent w \<Longrightarrow> Stop b cur w = Returns w' \<Longrightarrow>
   \<not> stopping (thr w') \<and> message_loop (thr w') = None \<and> \<not> fst (IsRunning w')
   \<and> returned (Start b cur' (Some (h, t)) w') = Some True
   \<and> returned (Start b cur' None w') = Some False"
proof -
  assume c: "consistent w" and s: "Stop b cur w = Returns w'"
  from Stop_Returns(1,2)[OF c s] have f: "\<not> stopping (thr w')" "message_loop (thr w') = None" "\<not> running (thr w')"
    by (simp_all add: consistent_def)
  from Start_created[OF f(2)] obtain w'' where "Start b cur' (Some (h, t)) w' = Returns (True, w'')"
    by blast
  with f Start_refused_returned[OF f(2), of b cur'] show ?thesis
    by (simp add: IsRunning_def returned_def)
qed

theorem Stop_then_restart_witness:
  "consistent started_world \<and> Stop debug_build 1 started_world = Returns stopped_world
   \<and> \<not> stopping (thr stopped_world) \<and> message_loop (thr stopped_world) = None
   \<and> \<not> fst (IsRunning stopped_world)
   \<and> returned (Start debug_build 1 (Some (6, 10)) stopped_world) = Some True"
  using Stop_then_restart [OF started_world_consistent started_world_stopped, of 1 6 10]
    started_world_consistent started_world_stopped
  by simp

text \<open>
  C10. When Stop has joined the worker of a successful Start (the handle was not null,
  and no later call of Start has reset the id that the worker published), GetThreadId, in
  any build and before any new Start, returns without waiting, leaves the state as it is,
  and answers the id of the worker that has exited, which is not the invalid id.
\<close>

theorem GetThreadId_after_Stop:
  "consistent w \<Longrightarrow> id_published w \<Longrightarrow> thread (thr w) \<noteq> 0 \<Longrightarrow> Stop b cur w = Returns w' \<Longrightarrow>
   GetThreadId b' w' = Returns (worker_id (worker w), w') \<and> worker_id (worker w) \<noteq> kInvalidThreadId"
proof -
  assume c: "consistent w" and p: "id_published w" and t: "thread (thr w) \<noteq> 0"
    and s: "Stop b cur w = Returns w'"
  from Stop_Returns[OF c s] t p have
    "manual_reset (id_event (thr w'))" "signaled (id_event (thr w'))"
    "id_m (thr w') = worker_id (worker w)" "worker_id (worker w) \<noteq> kInvalidThreadId"
    by (simp_all add: consistent_def)
  with GetThreadId_published[of w' b'] show ?thesis by simp
qed

theorem GetThreadId_after_Stop_witness:
  "consistent started_world \<and> id_published started_world \<and> thread (thr started_world) \<noteq> 0
   \<and> Stop debug_build 1 started_world = Returns stopped_world
   \<and> GetThreadId debug_build stopped_world = Returns (9, stopped_world) \<and> 9 \<noteq> kInvalidThreadId"
proof -
  have t: "thread (thr started_world) \<noteq> 0" by (simp add: started_world_def)
  have p: "id_published started_world" by (simp add: id_published_def started_world_def)
  show ?thesis
    using GetThreadId_after_Stop [OF started_world_consistent p t started_world_stopped, of debug_build]
      started_world_consistent started_world_stopped t p
    by (simp add: started_world_def)
qed

text \<open>
  C4. StartAndWaitForTesting does what Start followed by WaitUntilThreadStarted does, with
  the conjunction of their two answers as its answer, and it leaves the same state, waits
  for ever or dies when the composition does. It returns false when Start returns false.
  After a Start that returned true, WaitUntilThreadStarted cannot return false (the loop
  pointer is set), so the answer the code drops is true. It returns true only when both
  have returned true.
\<close>

theorem StartAndWaitForTesting_is_composition:
  "StartAndWaitForTesting b cur os w = Start_then_WaitUntilStarted b cur os w
   \<and> (\<forall>w1. Start b cur os w = Returns (False, w1)
          \<longrightarrow> StartAndWaitForTesting b cur os w = Returns (False, w1))
   \<and> (\<forall>w1 r w2. Start b cur os w = Returns (True, w1) \<and> WaitUntilThreadStarted b w1 = Returns (r, w2)
          \<longrightarrow> r \<and> StartAndWaitForTesting b cur os w = Returns (True, w2))
   \<and> (\<forall>w2. StartAndWaitForTesting b cur os w = Returns (True, w2)
          \<longrightarrow> (\<exists>w1. Start b cur os w = Returns (True, w1)
                 \<and> WaitUntilThreadStarted b w1 = Returns (True, w2)))"
proof (intro conjI allI impI)
  show "StartAndWaitForTesting b cur os w = Start_then_WaitUntilStarted b cur os w"
    by (rule StartAndWaitForTesting_eq)
next
  fix w1 assume "Start b cur os w = Returns (False, w1)"
  then show "StartAndWaitForTesting b cur os w = Returns (False, w1)"
    by (simp add: StartAndWaitForTesting_def)
next
  fix w1 r w2
  assume a: "Start b cur os w = Returns (True, w1) \<and> WaitUntilThreadStarted b w1 = Returns (r, w2)"
  with Start_Returns(1)[of b cur os w True w1] have "message_loop (thr w1) \<noteq> None" by simp
  from WaitUntilThreadStarted_live_Returns[OF this] a show "r" by blast
next
  fix w1 r w2
  assume "Start b cur os w = Returns (True, w1) \<and> WaitUntilThreadStarted b w1 = Returns (r, w2)"
  then show "StartAndWaitForTesting b cur os w = Returns (True, w2)"
    by (simp add: StartAndWaitForTesting_def)
next
  fix w2 assume s: "StartAndWaitForTesting b cur os w = Returns (True, w2)"
  then obtain r1 w1 where st: "Start b cur os w = Returns (r1, w1)"
    and rest: "(if \<not> r1 then Returns (False, w1)
       else and_then (WaitUntilThreadStarted b w1) (\<lambda>(ignored, w2). Returns (True, w2))) = Returns (True, w2)"
    by (auto simp: StartAndWaitForTesting_def and_then_Returns_iff)
  from rest have r1: r1 by (auto split: if_splits)
  with rest obtain r2 where wt: "WaitUntilThreadStarted b w1 = Returns (r2, w2)"
    by (auto simp: and_then_Returns_iff)
  from st r1 Start_Returns(1)[of b cur os w r1 w1] have "message_loop (thr w1) \<noteq> None" by simp
  from WaitUntilThreadStarted_live_Returns[OF this wt] have r2 .
  with st r1 wt show "\<exists>w1. Start b cur os w = Returns (True, w1) \<and> WaitUntilThreadStarted b w1 = Returns (True, w2)"
    by auto
qed

theorem StartAndWaitForTesting_is_composition_witness:
  "StartAndWaitForTesting debug_build 1 (Some (5, 9)) (World_new ''worker-A'') = Returns (True, running_world)
   \<and> Start_then_WaitUntilStarted debug_build 1 (Some (5, 9)) (World_new ''worker-A'') = Returns (True, running_world)
   \<and> returned (StartAndWaitForTesting debug_build 1 None (World_new ''worker-A'')) = Some False
   \<and> returned (Start_then_WaitUntilStarted debug_build 1 None (World_new ''worker-A'')) = Some False"
proof -
  have s: "StartAndWaitForTesting debug_build 1 (Some (5, 9)) (World_new ''worker-A'') = Returns (True, running_world)"
    unfolding StartAndWaitForTesting_def started_world_Start
    by (simp add: started_world_waited)
  have f: "returned (StartAndWaitForTesting debug_build 1 None (World_new ''worker-A'')) = Some False"
    by (simp add: returned_def StartAndWaitForTesting_def Start_def StartWithOptions_def Let_def
        DCHECK_def did_def Options_default_def SetThreadWasQuitProperly_def World_new_def
        Thread_new_def debug_build_def)
  show ?thesis
    using StartAndWaitForTesting_is_composition [of debug_build 1 "Some (5, 9)" "World_new ''worker-A''"]
      StartAndWaitForTesting_is_composition [of debug_build 1 None "World_new ''worker-A''"] s f
    by simp
qed

text \<open>
  C5, as stated, fails: a Start at which the operating system creates no thread does not
  leave the controller untouched. On the controller that has run and been stopped, whose
  id is 9, the failed Start resets \<open>id_m\<close> to the invalid id and \<open>id_event\<close>, and GetThreadId,
  which returned 9 before, waits for ever after it.
\<close>

theorem spawn_failure_resets_counterexample:
  "message_loop (thr stopped_world) = None
   \<and> Start debug_build 1 None stopped_world = Returns (False, refused_world)
   \<and> thr refused_world \<noteq> thr stopped_world
   \<and> id_m (thr stopped_world) = 9 \<and> id_m (thr refused_world) = kInvalidThreadId
   \<and> GetThreadId debug_build stopped_world = Returns (9, stopped_world)
   \<and> GetThreadId debug_build refused_world = Waits_forever"
proof -
  have 1: "message_loop (thr stopped_world) = None"
    by (simp add: stopped_world_def Thread_new_def)
  have 2: "id_m (thr stopped_world) = 9" "id_m (thr refused_world) = kInvalidThreadId"
    by (simp_all add: stopped_world_def refused_world_def)
  then have 3: "thr refused_world \<noteq> thr stopped_world"
    by (auto simp: kInvalidThreadId_def)
  have 4: "GetThreadId debug_build stopped_world = Returns (9, stopped_world)"
    by (simp add: GetThreadId_published stopped_world_def)
  have 5: "GetThreadId debug_build refused_world = Waits_forever"
    by (simp add: GetThreadId_def wait_until_def numeral_3_eq_3 worker_step_def
        refused_world_def stopped_world_def)
  from 1 2 3 4 5 stopped_world_refused show ?thesis by simp
qed

text \<open>
  C5, amended. When the operating system creates no thread, StartWithOptions (and so
  Start) returns false; the loop it created is destroyed and is no longer in the heap; the
  loop pointer is null again; the controller is left not started and reusable: the handle,
  \<open>stopping\<close>, \<open>running\<close>, the name and the worker are as before, a consistent state stays
  consistent, and a later Start at which the operating system creates the thread returns
  true. It is not left untouched: \<open>id_m\<close>, \<open>id_event\<close>, \<open>start_event\<close>, the timer slack and
  the caller's thread-local quit flag keep the values that lines 94 to 108 gave them
  before the thread was asked for. The hypotheses are those under which the call gets as
  far as creating the thread: no live loop, and on Windows the apartment check of lines 89
  to 92.
\<close>

theorem Start_spawn_failure:
  assumes "message_loop (thr w) = None"
    and "dcheck_is_on b \<and> os_win b \<and> com_status (thr w) = STA \<longrightarrow> message_loop_type options = TYPE_UI"
  shows "\<exists>w'. StartWithOptions b cur None options w = Returns (False, w')
     \<and> returned (Start b cur None w) = Some False
     \<and> message_loop (thr w') = None
     \<and> heap w' (next_free w) = None
     \<and> (\<exists>pre. actions w' = pre @ [Destroy_loop (next_free w)])
     \<and> thr w' = (thr w)\<lparr>id_event := Reset (id_event (thr w)), id_m := kInvalidThreadId,
                          message_loop_timer_slack := timer_slack options,
                          start_event := Reset (start_event (thr w))\<rparr>
     \<and> tls_bool w' = (tls_bool w)(cur := False)
     \<and> thread (thr w') = thread (thr w) \<and> stopping (thr w') = stopping (thr w)
     \<and> running (thr w') = running (thr w) \<and> name (thr w') = name (thr w)
     \<and> worker w' = worker w
     \<and> (consistent w \<longrightarrow> consistent w')
     \<and> returned (Start b cur' (Some (h, t)) w') = Some True"
proof -
  let ?w' = "w\<lparr>thr := (thr w)\<lparr>id_event := Reset (id_event (thr w)), id_m := kInvalidThreadId,
                        message_loop_timer_slack := timer_slack options,
                        start_event := Reset (start_event (thr w))\<rparr>,
        heap := (heap w)(next_free w := None),
        next_free := Suc (next_free w),
        tls_bool := (tls_bool w)(cur := False),
        actions := actions w @ [Acquire thread_lock,
           CreateWithPriority (stack_size options) (priority options) False,
           Release thread_lock, Destroy_loop (next_free w)]\<rparr>"
  have r: "StartWithOptions b cur None options w = Returns (False, ?w')"
    using assms by (rule StartWithOptions_refused)
  have d: "returned (Start b cur None w) = Some False"
    using assms(1)
    by (simp add: Start_def StartWithOptions_refused returned_def Options_default_def)
  have n: "message_loop (thr ?w') = None" using assms(1) by simp
  from Start_created[OF n] obtain w'' where "Start b cur' (Some (h, t)) ?w' = Returns (True, w'')"
    by blast
  then have again: "returned (Start b cur' (Some (h, t)) ?w') = Some True"
    by (simp add: returned_def)
  have c: "consistent w \<longrightarrow> consistent ?w'"
    using StartWithOptions_consistent[OF _ r] by simp
  from r d n again c show ?thesis
    by (intro exI[of _ ?w']) simp
qed

theorem Start_spawn_failure_witness:
  "message_loop (thr stopped_world) = None
   \<and> StartWithOptions debug_build 1 None Options_default stopped_world = Returns (False, refused_world)
   \<and> message_loop (thr refused_world) = None \<and> heap refused_world 2 = None
   \<and> thread (thr refused_world) = 0 \<and> \<not> stopping (thr refused_world) \<and> \<not> running (thr refused_world)
   \<and> id_m (thr refused_world) = kInvalidThreadId \<and> \<not> signaled (id_event (thr refused_world))
   \<and> worker refused_world = worker stopped_world
   \<and> consistent refused_world
   \<and> returned (Start debug_build 1 (Some (6, 10)) refused_world) = Some True"
proof -
  have n: "message_loop (thr stopped_world) = None"
    by (simp add: stopped_world_def Thread_new_def)
  have o: "dcheck_is_on debug_build \<and> os_win debug_build \<and> com_status (thr stopped_world) = STA
           \<longrightarrow> message_loop_type Options_default = TYPE_UI"
    by (simp add: debug_build_def)
  have c: "consistent stopped_world"
    by (simp add: consistent_def stopped_world_def Thread_new_def WaitableEvent_new_def)
  have r: "StartWithOptions debug_build 1 None Options_default stopped_world = Returns (False, refused_world)"
    using stopped_world_refused by (simp add: Start_def debug_build_def)
  have f: "thread (thr stopped_world) = 0" "\<not> stopping (thr stopped_world)"
    "\<not> running (thr stopped_world)" "next_free stopped_world = 2"
    by (simp_all add: stopped_world_def Thread_new_def)
  show ?thesis
    using Start_spawn_failure [OF n o, of 1 1 6 10] n c r f
    by (auto simp: Reset_def)
qed

text \<open>
  C1. A worker that has been created in a consistent state gets from the entry of
  ThreadMain into \<^verbatim>\<open>Run\<close>, and what it does on the way is, in this order: it stores its id
  and signals \<open>id_event\<close>, before anything else; it sets the thread name; it binds the loop
  to itself and gives it the name and the timer slack; (on Windows, with an apartment
  chosen, it initializes COM;) it runs \<open>Init\<close>; it sets \<open>running\<close> between the acquisition
  and the release of \<open>running_lock\<close>; it signals \<open>start_event\<close>; and only then it runs
  the loop.
\<close>

theorem ThreadMain_order:
  assumes "consistent w" and "at (worker w) = Created"
  shows "\<exists>w' a l. ThreadMain_begin b w = Returns w' \<and> worker_step b w = Returns w'
     \<and> message_loop (thr w) = Some a
     \<and> actions w' = actions w @
          [Set_id (worker_id (worker w)), Signal_id_event, PlatformThread_SetName (name (thr w)),
           BindToCurrentThread a (worker_id (worker w)), set_thread_name (name (thr w)),
           SetTimerSlack (message_loop_timer_slack (thr w))]
          @ com_actions b (thr w)
          @ [Init, Acquire running_lock, Set_running True, Release running_lock,
             Signal_start_event, Run a]
     \<and> id_m (thr w') = worker_id (worker w) \<and> signaled (id_event (thr w'))
     \<and> heap w' a = Some l \<and> bound_to l = Some (worker_id (worker w))
     \<and> running (thr w') \<and> signaled (start_event (thr w')) \<and> at (worker w') = In_Run"
proof -
  from assms obtain a l where a: "message_loop (thr w) = Some a" "heap w a = Some l"
    and t: "worker_id (worker w) \<noteq> kInvalidThreadId"
    by (auto simp: consistent_def split: option.splits)
  from ThreadMain_begin_eq[OF a, of b] t assms(2) a show ?thesis
    by (simp add: worker_step_def Signal_def)
qed

theorem ThreadMain_order_witness:
  "consistent started_world \<and> at (worker started_world) = Created
   \<and> (\<exists>w'. ThreadMain_begin debug_build started_world = Returns w'
        \<and> actions w' = actions started_world @
            [Set_id 9, Signal_id_event, PlatformThread_SetName ''worker-A'',
             BindToCurrentThread 1 9, set_thread_name ''worker-A'', SetTimerSlack TIMER_SLACK_NONE,
             Init, Acquire running_lock, Set_running True, Release running_lock,
             Signal_start_event, Run 1])"
proof -
  have a: "at (worker started_world) = Created" by (simp add: started_world_def)
  show ?thesis
    using ThreadMain_order [OF started_world_consistent a, of debug_build] started_world_consistent a
    by (auto simp: started_world_def Thread_new_def com_actions_def debug_build_def)
qed



end
